theory Spec2Isabelle
  imports Main
begin

section \<open>ZCLI: the line parser and command dispatcher of \<^verbatim>\<open>ZCLI.py\<close>\<close>

text \<open>
  The interpreter is the class \<^verbatim>\<open>ZCLILanguage\<close>. Its fields become a record, every
  method becomes a function that takes the record and returns it updated. A Python
  \<^verbatim>\<open>str\<close> is a \<^typ>\<open>string\<close>: one \<^typ>\<open>char\<close> per code point, for code
  points below 256. Standard output is the list of the texts written, the standard input
  is the list of the lines still to be read, and the file system is a map from paths to
  file contents.
\<close>

subsection \<open>Python string primitives\<close>

text \<open>
  \<^verbatim>\<open>str.isspace\<close> on one character, which is also what \<^verbatim>\<open>str.strip()\<close>,
  \<^verbatim>\<open>str.split()\<close> and the regular expression class \<^verbatim>\<open>\s\<close> test: code points
  9 to 13, 28 to 32, 133 and 160.
\<close>

definition isspace :: "char \<Rightarrow> bool" where
  "isspace c = (let n = (of_char c :: nat) in
     (9 \<le> n \<and> n \<le> 13) \<or> (28 \<le> n \<and> n \<le> 32) \<or> n = 133 \<or> n = 160)"

text \<open>\<^verbatim>\<open>str.lower()\<close>: A to Z, and the capital letters 192 to 222 of Latin-1 but 215.\<close>

definition lower_char :: "char \<Rightarrow> char" where
  "lower_char c = (let n = (of_char c :: nat) in
     if (65 \<le> n \<and> n \<le> 90) \<or> (192 \<le> n \<and> n \<le> 222 \<and> n \<noteq> 215)
     then char_of (n + 32) else c)"

definition lower :: "string \<Rightarrow> string" where
  "lower s = map lower_char s"

text \<open>\<^verbatim>\<open>s.strip()\<close>\<close>

definition strip :: "string \<Rightarrow> string" where
  "strip s = rev (dropWhile isspace (rev (dropWhile isspace s)))"

text \<open>\<^verbatim>\<open>s.startswith(p)\<close> and \<^verbatim>\<open>s.endswith(p)\<close>\<close>

definition startswith :: "string \<Rightarrow> string \<Rightarrow> bool" where
  "startswith s p = (take (length p) s = p)"

definition endswith :: "string \<Rightarrow> string \<Rightarrow> bool" where
  "endswith s p = (length p \<le> length s \<and> drop (length s - length p) s = p)"

text \<open>The slice \<^verbatim>\<open>s[1:-1]\<close>: from index 1 up to, and without, the last index.\<close>

definition slice_1_m1 :: "string \<Rightarrow> string" where
  "slice_1_m1 s = drop 1 (take (length s - 1) s)"

text \<open>
  \<^verbatim>\<open>s.split(maxsplit=k)\<close>: skip white space, cut at most \<open>k\<close> words, and when \<open>k\<close>
  words are cut the rest, its leading white space skipped, is the last part as it is.
\<close>

fun split_ws :: "nat \<Rightarrow> string \<Rightarrow> string list" where
  "split_ws 0 s = (let r = dropWhile isspace s in if r = [] then [] else [r])"
| "split_ws (Suc k) s = (let r = dropWhile isspace s in
     if r = [] then []
     else takeWhile (\<lambda>c. \<not> isspace c) r # split_ws k (dropWhile (\<lambda>c. \<not> isspace c) r))"

subsection \<open>The regular expressions\<close>

text \<open>
  The colour tag pattern is \<^verbatim>\<open>\s*\(\(color\s+([a-zA-Z0-9#]+)\)\)\s*$\<close>.
  \<open>color_tag_at s\<close> is the match of the pattern that starts at the head of \<open>s\<close>:
  white space, the text \<^verbatim>\<open>((color\<close>, at least one white space, a name of at least one
  character of the class, \<^verbatim>\<open>))\<close>, and white space up to the end. Each repetition is
  greedy, and taking less never helps, since the next item of the pattern does not match
  a character of the repetition. It returns group 1, the name.
\<close>

definition is_color_char :: "char \<Rightarrow> bool" where
  "is_color_char c = (let n = (of_char c :: nat) in
     (97 \<le> n \<and> n \<le> 122) \<or> (65 \<le> n \<and> n \<le> 90) \<or> (48 \<le> n \<and> n \<le> 57) \<or> n = 35)"

definition color_tag_at :: "string \<Rightarrow> string option" where
  "color_tag_at s = (let r1 = dropWhile isspace s in
     if \<not> startswith r1 ''((color'' then None
     else let r2 = drop 7 r1;
              r3 = dropWhile isspace r2;
              nm = takeWhile is_color_char r3;
              r4 = dropWhile is_color_char r3 in
       if takeWhile isspace r2 = [] \<or> nm = [] \<or> \<not> startswith r4 ''))'' then None
       else if dropWhile isspace (drop 2 r4) = [] then Some nm else None)"

text \<open>
  \<^verbatim>\<open>re.search\<close> tries the start positions from the left. The result is the text
  before the match and the name; the match runs to the end of the line, so the text
  before the match is also what \<^verbatim>\<open>re.sub(pattern, '', line)\<close> leaves.
\<close>

fun color_tag_search :: "string \<Rightarrow> string \<Rightarrow> (string \<times> string) option" where
  "color_tag_search pre [] = None"
| "color_tag_search pre (c # cs) =
     (case color_tag_at (c # cs) of
        Some nm \<Rightarrow> Some (pre, nm)
      | None \<Rightarrow> color_tag_search (pre @ [c]) cs)"

text \<open>
  \<^verbatim>\<open>re.split(r'\s*:\s*', s)\<close>: scanning from the left, a match starts at the first
  position from which white space and then a colon follow; it takes the colon and the
  white space after it. The pieces are the texts between the matches.
\<close>

function re_split_colon :: "string \<Rightarrow> string \<Rightarrow> string list" where
  "re_split_colon piece [] = [piece]"
| "re_split_colon piece (c # cs) =
     (let r = dropWhile isspace (c # cs) in
      if r \<noteq> [] \<and> hd r = CHR '':'' then piece # re_split_colon [] (dropWhile isspace (tl r))
      else re_split_colon (piece @ [c]) cs)"
  by pat_completeness auto
termination
proof (relation "measure (\<lambda>(piece, s). length s)")
  fix piece :: string and c :: char and cs r :: string
  assume r: "r = dropWhile isspace (c # cs)" and ne: "r \<noteq> [] \<and> hd r = CHR '':''"
  have "length (dropWhile isspace (tl r)) \<le> length (tl r)"
    by (rule length_dropWhile_le)
  also have "\<dots> < length r" using ne by (cases r) simp_all
  also have "\<dots> \<le> length (c # cs)" unfolding r by (rule length_dropWhile_le)
  finally show "(([], dropWhile isspace (tl r)), (piece, c # cs)) \<in> measure (\<lambda>(piece, s). length s)"
    by simp
qed simp_all

text \<open>The pattern \<^verbatim>\<open>^#([0-9a-f]{3}){1,2}$\<close> of \<^verbatim>\<open>re.match\<close>; \<^verbatim>\<open>$\<close> also
  matches before a newline that ends the text.\<close>

definition is_hex_digit :: "char \<Rightarrow> bool" where
  "is_hex_digit c = (let n = (of_char c :: nat) in
     (48 \<le> n \<and> n \<le> 57) \<or> (97 \<le> n \<and> n \<le> 102))"

definition is_hex_color :: "string \<Rightarrow> bool" where
  "is_hex_color s = (let t = (if s \<noteq> [] \<and> last s = CHR 0x0A then butlast s else s) in
     t \<noteq> [] \<and> hd t = CHR ''#'' \<and> (length (tl t) = 3 \<or> length (tl t) = 6) \<and>
     list_all is_hex_digit (tl t))"

subsection \<open>The interpreter state\<close>

datatype mode = Compiler | Interpreter

text \<open>What reaches the terminal: the text of a \<^verbatim>\<open>print\<close> call, or the prompt that
  \<^verbatim>\<open>input(prompt)\<close> writes before it reads.\<close>

datatype out = Print string | Prompt string

text \<open>
  The fields of \<^verbatim>\<open>ZCLILanguage\<close> (\<^verbatim>\<open>mode\<close> is \<^verbatim>\<open>"compiler"\<close> or
  \<^verbatim>\<open>"interpreter"\<close>, \<^verbatim>\<open>last_input_value\<close> is \<^verbatim>\<open>None\<close> until an input is read),
  and the environment: what was written to the terminal, the input lines not read yet
  (reading from an empty list is the end of the input, \<^verbatim>\<open>EOFError\<close>), the files with
  their decoded text, and for a path that cannot be opened the text of the operating
  system's error.
\<close>

record state =
  variables :: "string \<rightharpoonup> string"
  program_lines :: "string list"
  mode :: mode
  session_history :: "string list"
  last_input_value :: "string option"
  stdout :: "out list"
  stdin :: "string list"
  files :: "string \<rightharpoonup> string"
  read_error :: "string \<rightharpoonup> string"
  write_error :: "string \<rightharpoonup> string"

definition print :: "string \<Rightarrow> state \<Rightarrow> state" where
  "print t s = s\<lparr>stdout := stdout s @ [Print t]\<rparr>"

text \<open>
  A method returns, or \<^verbatim>\<open>sys.exit(code)\<close> raises \<^verbatim>\<open>SystemExit\<close>, which no
  \<^verbatim>\<open>except Exception\<close> catches.
\<close>

datatype outcome = Continue state | Exit nat state

text \<open>
  The kinds of error of the specification. In the source an error of a command is a
  \<^verbatim>\<open>print\<close> of its text followed by \<^verbatim>\<open>return\<close>; the model returns the kind and
  the text, and the dispatcher prints the text.
\<close>

datatype error_kind =
  SyntaxError | UndefinedVariableError | UnboundInputError | InvalidOperandError
  | UnknownCommandError

type_synonym failure = "error_kind \<times> string"

subsection \<open>The texts printed\<close>

text \<open>The constants of \<^verbatim>\<open>colorama\<close>: \<^verbatim>\<open>Style.RESET_ALL\<close> and \<^verbatim>\<open>Fore.*\<close>.\<close>

definition ANSI_RESET :: string where
  "ANSI_RESET = [CHR 0x1B] @ ''[0m''"

definition fore :: "string \<Rightarrow> string" where
  "fore digits = [CHR 0x1B] @ ''['' @ digits @ ''m''"

definition ANSI_COLORS :: "(string \<times> string) list" where
  "ANSI_COLORS = [
     (''red'', fore ''31''),
     (''orange'', fore ''33''),
     (''yellow'', fore ''33''),
     (''green'', fore ''32''),
     (''blue'', fore ''34''),
     (''indigo'', fore ''34''),
     (''violet'', fore ''35''),
     (''purple'', fore ''35''),
     (''cyan'', fore ''36''),
     (''white'', fore ''37''),
     (''black'', fore ''30'')]"

definition msg_hex_warning :: "string \<Rightarrow> string" where
  "msg_hex_warning name = ''Warning: Hex color '' @ [CHR 0x27] @ name @ [CHR 0x27] @ '' is not fully supported in this basic terminal environment. Displaying with default color.''"

definition msg_define_missing_value :: "string" where
  "msg_define_missing_value = ''Error: Invalid define syntax. Missing value. Use: define variablename '' @ [CHR 0x22] @ ''value'' @ [CHR 0x22] @ '' or define variablename ((input)) or define <var> <part1> : <part2>''"

definition msg_define_no_input :: "string" where
  "msg_define_no_input = ''Error: No input has been provided yet via '' @ [CHR 0x27] @ ''show input'' @ [CHR 0x27] @ '' for '' @ [CHR 0x27] @ ''define ((input))'' @ [CHR 0x27] @ ''.''"

definition msg_define_undefined :: "string \<Rightarrow> string" where
  "msg_define_undefined name = ''Error: Variable '' @ [CHR 0x27] @ name @ [CHR 0x27] @ '' not defined in define concatenation.''"

definition msg_define_invalid :: "string \<Rightarrow> string" where
  "msg_define_invalid part = ''Error: Invalid element '' @ [CHR 0x27] @ part @ [CHR 0x27] @ '' in define value concatenation. Must be a quoted string, ((input)), or (variable).''"

definition msg_defined :: "string \<Rightarrow> string \<Rightarrow> string" where
  "msg_defined name val = ''Defined variable '' @ [CHR 0x27] @ name @ [CHR 0x27] @ '' with value '' @ [CHR 0x27] @ val @ [CHR 0x27]"

definition msg_define_syntax :: "string" where
  "msg_define_syntax = ''Error: Invalid define syntax. Use: define variablename '' @ [CHR 0x22] @ ''value'' @ [CHR 0x22] @ '' or define variablename ((input)) or define <var> <part1> : <part2>''"

definition msg_show_syntax :: "string" where
  "msg_show_syntax = ''Error: Invalid show syntax. Use: show '' @ [CHR 0x22] @ ''literal string'' @ [CHR 0x22] @ '', show (variablename), show input ['' @ [CHR 0x22] @ ''prompt'' @ [CHR 0x22] @ ''], show ((input)), or use concatenation with '' @ [CHR 0x27] @ '':'' @ [CHR 0x27]"

definition msg_show_input_prompt :: "string" where
  "msg_show_input_prompt = ''Error: Invalid show input syntax. Prompt must be a quoted string.''"

definition msg_show_no_input :: "string" where
  "msg_show_no_input = ''Error: No input has been provided yet via '' @ [CHR 0x27] @ ''show input'' @ [CHR 0x27] @ '' for '' @ [CHR 0x27] @ ''show ((input))'' @ [CHR 0x27] @ ''.''"

definition msg_show_undefined :: "string \<Rightarrow> string" where
  "msg_show_undefined name = ''Error: Variable '' @ [CHR 0x27] @ name @ [CHR 0x27] @ '' not defined in concatenation.''"

definition msg_show_invalid :: "string \<Rightarrow> string" where
  "msg_show_invalid part = ''Error: Invalid element '' @ [CHR 0x27] @ part @ [CHR 0x27] @ '' in show concatenation. Must be a quoted string or (variable).''"

definition msg_save_syntax :: "string" where
  "msg_save_syntax = ''Error: Invalid save syntax. Use: save filename''"

definition msg_open_syntax :: "string" where
  "msg_open_syntax = ''Error: Invalid open syntax. Use: open filename.zcli''"

definition msg_no_program_lines :: "string" where
  "msg_no_program_lines = ''No program lines to execute. Add commands in compiler mode first.''"

definition msg_executing_program :: "string" where
  "msg_executing_program = [CHR 0x0A] @ ''--- Executing ZCLI Program ---''"

definition msg_execution_complete :: "string" where
  "msg_execution_complete = ''--- Program Execution Complete ---'' @ [CHR 0x0A]"

definition msg_execute_only_compiler :: "string" where
  "msg_execute_only_compiler = ''Error: '' @ [CHR 0x27] @ ''execute'' @ [CHR 0x27] @ '' command is only available in compiler mode.''"

definition msg_execute_ignored :: "string" where
  "msg_execute_ignored = ''Warning: '' @ [CHR 0x27] @ ''execute'' @ [CHR 0x27] @ '' command ignored during program execution.''"

definition msg_switched_interpreter :: "string" where
  "msg_switched_interpreter = ''Switched to interpreter mode. Commands will be executed immediately.''"

definition msg_int_ignored :: "string" where
  "msg_int_ignored = ''Warning: '' @ [CHR 0x27] @ ''int'' @ [CHR 0x27] @ '' command ignored during program execution.''"

definition msg_switched_compiler :: "string" where
  "msg_switched_compiler = ''Switched to compiler mode. Commands will be stored for '' @ [CHR 0x27] @ ''execute'' @ [CHR 0x27] @ ''.''"

definition msg_comp_ignored :: "string" where
  "msg_comp_ignored = ''Warning: '' @ [CHR 0x27] @ ''comp'' @ [CHR 0x27] @ '' command ignored during program execution.''"

definition msg_unknown_command :: "string \<Rightarrow> string" where
  "msg_unknown_command command = ''Error: Unknown command '' @ [CHR 0x27] @ command @ [CHR 0x27] @ ''. Type '' @ [CHR 0x27] @ ''help'' @ [CHR 0x27] @ '' for commands.''"

definition msg_runtime_error :: "string \<Rightarrow> string \<Rightarrow> string" where
  "msg_runtime_error command e = ''Runtime Error during command '' @ [CHR 0x27] @ command @ [CHR 0x27] @ '': '' @ e"

definition msg_halted :: "string" where
  "msg_halted = ''Program execution halted due to the above error.''"

definition msg_saved_buffer :: "string \<Rightarrow> string" where
  "msg_saved_buffer filename = ''Program (compiler buffer) saved to '' @ [CHR 0x27] @ filename @ [CHR 0x27] @ ''.''"

definition msg_saved_history :: "string \<Rightarrow> string" where
  "msg_saved_history filename = ''Session history saved to '' @ [CHR 0x27] @ filename @ [CHR 0x27] @ ''.''"

definition msg_error_saving :: "string \<Rightarrow> string \<Rightarrow> string" where
  "msg_error_saving filename e = ''Error saving file '' @ [CHR 0x27] @ filename @ [CHR 0x27] @ '': '' @ e"

definition msg_loaded :: "string \<Rightarrow> string" where
  "msg_loaded filename = ''Program lines from '' @ [CHR 0x27] @ filename @ [CHR 0x27] @ '' loaded into compiler buffer.''"

definition msg_type_execute :: "string" where
  "msg_type_execute = ''Type '' @ [CHR 0x27] @ ''execute'' @ [CHR 0x27] @ '' to run them.''"

definition msg_executing_from :: "string \<Rightarrow> string" where
  "msg_executing_from filename = ''Executing program from '' @ [CHR 0x27] @ filename @ [CHR 0x27] @ '' in interpreter mode...''"

definition msg_file_not_found :: "string \<Rightarrow> string" where
  "msg_file_not_found filename = ''Error: File '' @ [CHR 0x27] @ filename @ [CHR 0x27] @ '' not found.''"

definition msg_error_opening :: "string \<Rightarrow> string \<Rightarrow> string" where
  "msg_error_opening filename e = ''Error opening file '' @ [CHR 0x27] @ filename @ [CHR 0x27] @ '': '' @ e"

definition msg_executing_file :: "string \<Rightarrow> string" where
  "msg_executing_file filename = ''Executing ZCLI file: '' @ filename"

definition msg_finished :: "string \<Rightarrow> string" where
  "msg_finished filename = ''Finished executing '' @ filename @ ''.''"

definition msg_welcome :: "string" where
  "msg_welcome = ''Welcome to ZCLI! Type '' @ [CHR 0x27] @ ''help'' @ [CHR 0x27] @ '' for commands.''"

definition msg_goodbye :: "string" where
  "msg_goodbye = ''Exiting ZCLI. Goodbye!''"

definition msg_goodbye_eof :: "string" where
  "msg_goodbye_eof = [CHR 0x0A] @ ''Exiting ZCLI. Goodbye!''"

definition msg_eof :: "string" where
  "msg_eof = ''EOF when reading a line''"

definition help_text :: "string list" where
  "help_text = [
     [CHR 0x0A] @ ''----------------------------------------------------------------'',
     ''                 Welcome to ZCLI! Help Guide'',
     ''----------------------------------------------------------------'',
     ''Commands:'',
     ''  define <variable_name> '' @ [CHR 0x22] @ ''<value>'' @ [CHR 0x22],
     ''    - Defines a new variable with a literal string value.'',
     ''    Example: define myVar '' @ [CHR 0x22] @ ''Hello ZCLI!'' @ [CHR 0x22],
     [],
     ''  define <variable_name> ((input))'',
     ''    - Defines a new variable with the last input received from a '' @ [CHR 0x27] @ ''show input'' @ [CHR 0x27] @ '' command.'',
     ''    - Does NOT prompt for new input.'',
     ''    Example: define userName ((input))'',
     [],
     ''  define <variable_name> <part1> : <part2> : ...'',
     ''    - Defines a new variable by concatenating multiple parts.'',
     ''    - Parts can be literal strings, ((input)), or (variable_name).'',
     ''    Example: define fullName (firstName) : '' @ [CHR 0x22] @ '' '' @ [CHR 0x22] @ '' : (lastName)'',
     [],
     ''  show '' @ [CHR 0x22] @ ''<literal_string>'' @ [CHR 0x22] @ '' or show (<variable_name>)'',
     ''    - Prints a literal string or the value of a variable.'',
     ''    - Supports concatenation with '' @ [CHR 0x27] @ '':'' @ [CHR 0x27] @ '' (e.g., show '' @ [CHR 0x22] @ ''Hello'' @ [CHR 0x22] @ '' : (myVar) : '' @ [CHR 0x22] @ ''!'' @ [CHR 0x22] @ '')'',
     ''    - Supports optional color tag at the end: ((color <color_name_or_hex>))'',
     ''    Example: show '' @ [CHR 0x22] @ ''This is a literal string.'' @ [CHR 0x22] @ '' ((color red))'',
     ''    Example: show (myVar) ((color blue))'',
     ''    Example: show '' @ [CHR 0x22] @ ''Your name is: '' @ [CHR 0x22] @ '' : (userName)'',
     [],
     ''  show input ['' @ [CHR 0x22] @ ''<prompt_string>'' @ [CHR 0x22] @ '']'',
     ''    - Prompts for user input with an optional custom message.'',
     ''    - The input received is stored for '' @ [CHR 0x27] @ ''define ((input))'' @ [CHR 0x27] @ '' and '' @ [CHR 0x27] @ ''show ((input))'' @ [CHR 0x27] @ ''.'',
     ''    - Does NOT print the input directly after prompting.'',
     ''    Example: show input (prompts for input with no message)'',
     ''    Example: show input '' @ [CHR 0x22] @ ''What is your name? '' @ [CHR 0x22] @ '' (prompts with custom message)'',
     [],
     ''  show ((input))'',
     ''    - Prints the last input received from a '' @ [CHR 0x27] @ ''show input'' @ [CHR 0x27] @ '' command.'',
     ''    - Does NOT prompt for new input.'',
     ''    Example: show ((input))'',
     ''    Supported named colors: red, orange, yellow, green, blue, indigo, violet, purple, cyan, white, black.'',
     ''    Note: Hex color codes (e.g., #FF00FF) are recognized but may not display correctly in all terminals.'',
     [],
     ''  $ <comment_text>'',
     ''    - Adds a comment. Lines starting with '' @ [CHR 0x27] @ ''$'' @ [CHR 0x27] @ '' are ignored.'',
     ''    Example: $ This is a comment about my code.'',
     [],
     ''  save <filename>'',
     ''    - Saves the current program (if in compiler mode) or session history'',
     ''      (if in interpreter mode) to the specified file. Automatically adds '' @ [CHR 0x27] @ ''.zcli'' @ [CHR 0x27] @ '' extension.'',
     ''    Example: save myprogram (will save as myprogram.zcli)'',
     [],
     ''  open <filename.zcli>'',
     ''    - Loads commands from the specified file.'',
     ''    - In compiler mode: Appends lines to the current program buffer.'',
     ''    - In interpreter mode: Executes lines immediately.'',
     ''    Example: open myprogram.zcli'',
     [],
     ''  execute'',
     ''    - (Compiler Mode Only) Executes all stored program lines.'',
     ''    Example: execute'',
     [],
     ''  int'',
     ''    - Switches ZCLI to interpreter mode. Commands execute immediately.'',
     ''    Example: int'',
     [],
     ''  comp'',
     ''    - Switches ZCLI to compiler mode. Commands are stored for '' @ [CHR 0x27] @ ''execute'' @ [CHR 0x27] @ ''.'',
     ''    Example: comp'',
     [],
     ''  exit'',
     ''    - Exits the ZCLI environment.'',
     ''----------------------------------------------------------------'' @ [CHR 0x0A]
  ]"

subsection \<open>\<^verbatim>\<open>_get_ansi_color_code\<close> and \<^verbatim>\<open>_get_user_input\<close>\<close>

definition get_ansi_color_code :: "string \<Rightarrow> state \<Rightarrow> string \<times> state" where
  "get_ansi_color_code color_name_or_hex s =
     (let color_name_or_hex_lower = lower color_name_or_hex in
      case map_of ANSI_COLORS color_name_or_hex_lower of
        Some code \<Rightarrow> (code, s)
      | None \<Rightarrow>
          if is_hex_color color_name_or_hex_lower
          then ([], print (msg_hex_warning color_name_or_hex) s)
          else ([], s))"

text \<open>\<^verbatim>\<open>input(prompt)\<close>: the prompt is written, then a line is read; \<open>None\<close> is
  \<^verbatim>\<open>EOFError\<close>.\<close>

definition get_user_input :: "string \<Rightarrow> state \<Rightarrow> string option \<times> state" where
  "get_user_input prompt s =
     (let s1 = s\<lparr>stdout := stdout s @ [Prompt prompt]\<rparr> in
      case stdin s1 of
        [] \<Rightarrow> (None, s1)
      | l # ls \<Rightarrow> (Some l, s1\<lparr>stdin := ls\<rparr>))"

subsection \<open>\<^verbatim>\<open>_parse_and_execute_line\<close>: the \<^verbatim>\<open>define\<close> command\<close>

text \<open>The test \<^verbatim>\<open>part.startswith(q) and part.endswith(q)\<close>.\<close>

definition wrapped :: "string \<Rightarrow> string \<Rightarrow> string \<Rightarrow> bool" where
  "wrapped part l r = (startswith part l \<and> endswith part r)"

text \<open>\<^verbatim>\<open>(name)\<close> or \<^verbatim>\<open>((name))\<close>: the outer parentheses are removed, and the inner
  ones if the rest is still wrapped.\<close>

definition var_name_in_paren :: "string \<Rightarrow> string" where
  "var_name_in_paren part =
     (let v = slice_1_m1 part in if wrapped v ''('' '')'' then slice_1_m1 v else v)"

text \<open>
  The loop over \<^verbatim>\<open>concatenation_parts\<close> (lines 120 to 146); the last argument is
  \<^verbatim>\<open>evaluated_value_parts\<close>.
\<close>

fun define_loop :: "state \<Rightarrow> string list \<Rightarrow> string list \<Rightarrow> failure + string list" where
  "define_loop s [] evaluated = Inr evaluated"
| "define_loop s (part # ps) evaluated =
     (if part = [] then define_loop s ps evaluated
      else if wrapped part [CHR 0x22] [CHR 0x22]
        then define_loop s ps (evaluated @ [slice_1_m1 part])
      else if lower part = ''((input))'' then
        (case last_input_value s of
           Some v \<Rightarrow> define_loop s ps (evaluated @ [v])
         | None \<Rightarrow> Inl (UnboundInputError, msg_define_no_input))
      else if wrapped part ''('' '')'' then
        (case variables s (var_name_in_paren part) of
           Some v \<Rightarrow> define_loop s ps (evaluated @ [v])
         | None \<Rightarrow> Inl (UndefinedVariableError, msg_define_undefined (var_name_in_paren part)))
      else Inl (InvalidOperandError, msg_define_invalid part))"

text \<open>\<^verbatim>\<open>[p.strip() for p in re.split(r'\s*:\s*', argument)]\<close>\<close>

definition concatenation_parts :: "string \<Rightarrow> string list" where
  "concatenation_parts argument = map strip (re_split_colon [] argument)"

definition exec_define :: "bool \<Rightarrow> string \<Rightarrow> string list \<Rightarrow> state \<Rightarrow> failure + outcome" where
  "exec_define is_runtime_execution processed_line parts s =
     (if length parts \<ge> 2 then
        (let var_name = parts ! 1 in
         if length parts < 3 then Inl (SyntaxError, msg_define_missing_value)
         else
           let full_value_argument =
                 strip (drop (length ''define'' + length var_name + 1) processed_line) in
           case define_loop s (concatenation_parts full_value_argument) [] of
             Inl f \<Rightarrow> Inl f
           | Inr evaluated_value_parts \<Rightarrow>
               (let value_to_store = concat evaluated_value_parts;
                    s1 = s\<lparr>variables := (variables s)(var_name \<mapsto> value_to_store)\<rparr> in
                Inr (Continue (if is_runtime_execution then s1
                               else print (msg_defined var_name value_to_store) s1))))
      else Inl (SyntaxError, msg_define_syntax))"

subsection \<open>\<^verbatim>\<open>_parse_and_execute_line\<close>: the \<^verbatim>\<open>show\<close> command\<close>

text \<open>The loop of lines 195 to 220; the last argument is
  \<^verbatim>\<open>final_output_content_parts\<close>.\<close>

fun show_loop :: "state \<Rightarrow> string list \<Rightarrow> string list \<Rightarrow> failure + string list" where
  "show_loop s [] content = Inr content"
| "show_loop s (part # ps) content =
     (if part = [] then show_loop s ps content
      else if wrapped part [CHR 0x22] [CHR 0x22]
        then show_loop s ps (content @ [slice_1_m1 part])
      else if wrapped part ''('' '')'' then
        (case variables s (var_name_in_paren part) of
           Some v \<Rightarrow> show_loop s ps (content @ [v])
         | None \<Rightarrow> Inl (UndefinedVariableError, msg_show_undefined (var_name_in_paren part)))
      else Inl (InvalidOperandError, msg_show_invalid part))"

text \<open>The exception handler of lines 278 to 283, for the exception text \<open>e\<close>.\<close>

definition runtime_error :: "bool \<Rightarrow> string \<Rightarrow> string \<Rightarrow> state \<Rightarrow> outcome" where
  "runtime_error is_runtime_execution command e s =
     (let s1 = print (msg_runtime_error command e) s in
      if is_runtime_execution then Exit 1 (print msg_halted s1) else Continue s1)"

text \<open>Lines 225 and 226: the line is printed unless the command is a pure
  \<^verbatim>\<open>show input\<close>.\<close>

definition show_print :: "string \<Rightarrow> string \<Rightarrow> string list \<Rightarrow> state \<Rightarrow> state" where
  "show_print color_code content_to_print parts s =
     (if content_to_print \<noteq> [] \<or> lower (parts ! 1) \<noteq> ''input''
      then print (color_code @ content_to_print @ ANSI_RESET) s else s)"

definition exec_show ::
  "bool \<Rightarrow> string \<Rightarrow> string \<Rightarrow> string list \<Rightarrow> state \<Rightarrow> failure + outcome" where
  "exec_show is_runtime_execution color_code processed_line parts s =
     (if length parts < 2 then Inl (SyntaxError, msg_show_syntax)
      else if lower (parts ! 1) = ''input'' then
        (if length parts \<ge> 3 \<and> \<not> wrapped (parts ! 2) [CHR 0x22] [CHR 0x22]
         then Inl (SyntaxError, msg_show_input_prompt)
         else
           let input_prompt = (if length parts \<ge> 3 then slice_1_m1 (parts ! 2) else []) in
           case get_user_input input_prompt s of
             (None, s1) \<Rightarrow> Inr (runtime_error is_runtime_execution ''show'' msg_eof s1)
           | (Some user_input_val, s1) \<Rightarrow>
               Inr (Continue (show_print color_code [] parts
                                (s1\<lparr>last_input_value := Some user_input_val\<rparr>))))
      else if lower (parts ! 1) = ''((input))'' then
        (case last_input_value s of
           Some v \<Rightarrow> Inr (Continue (show_print color_code v parts s))
         | None \<Rightarrow> Inl (UnboundInputError, msg_show_no_input))
      else
        (let full_show_argument = strip (drop (length ''show'') processed_line) in
         case show_loop s (concatenation_parts full_show_argument) [] of
           Inl f \<Rightarrow> Inl f
         | Inr final_output_content_parts \<Rightarrow>
             Inr (Continue (show_print color_code (concat final_output_content_parts) parts s))))"

subsection \<open>\<^verbatim>\<open>_save_program\<close> and \<^verbatim>\<open>_open_program\<close>\<close>

definition save_filename :: "string \<Rightarrow> string" where
  "save_filename filename =
     (if \<not> endswith (lower filename) ''.zcli'' then filename @ ''.zcli'' else filename)"

text \<open>What the loop \<^verbatim>\<open>for line in lines: f.write(line + '\n')\<close> writes.\<close>

definition written_text :: "string list \<Rightarrow> string" where
  "written_text lines = concat (map (\<lambda>line. line @ [CHR 0x0A]) lines)"

definition save_program :: "string \<Rightarrow> state \<Rightarrow> state" where
  "save_program filename0 s =
     (let filename = save_filename filename0 in
      case write_error s filename of
        Some e \<Rightarrow> print (msg_error_saving filename e) s
      | None \<Rightarrow>
          if mode s = Compiler
          then print (msg_saved_buffer filename)
                 (s\<lparr>files := (files s)(filename \<mapsto> written_text (program_lines s))\<rparr>)
          else print (msg_saved_history filename)
                 (s\<lparr>files := (files s)(filename \<mapsto> written_text (session_history s))\<rparr>))"

text \<open>
  The lines of a text file as the iteration \<^verbatim>\<open>for line in f\<close> gives them: the text
  is cut after each line end (\<^verbatim>\<open>\n\<close>, \<^verbatim>\<open>\r\<close> or \<^verbatim>\<open>\r\n\<close>, universal newlines).
  Cutting at every \<^verbatim>\<open>\n\<close> and every \<^verbatim>\<open>\r\<close> gives the same lines and empty ones,
  which the comprehension \<^verbatim>\<open>[line.strip() for line in f if line.strip()]\<close> drops.
\<close>

fun cut_lines :: "string \<Rightarrow> string \<Rightarrow> string list" where
  "cut_lines line [] = [line]"
| "cut_lines line (c # cs) =
     (if c = CHR 0x0A \<or> c = CHR 0x0D then line # cut_lines [] cs
      else cut_lines (line @ [c]) cs)"

definition read_lines :: "string \<Rightarrow> string list" where
  "read_lines content = filter (\<lambda>l. l \<noteq> []) (map strip (cut_lines [] content))"

text \<open>The first argument is the method \<^verbatim>\<open>_run_program_lines\<close>, defined below.\<close>

definition open_program ::
  "(string list \<Rightarrow> state \<Rightarrow> outcome) \<Rightarrow> string \<Rightarrow> state \<Rightarrow> outcome" where
  "open_program run filename s =
     (case files s filename of
        None \<Rightarrow> Continue (print (msg_file_not_found filename) s)
      | Some content \<Rightarrow>
          (case read_error s filename of
             Some e \<Rightarrow> Continue (print (msg_error_opening filename e) s)
           | None \<Rightarrow>
               (let lines = read_lines content in
                if mode s = Compiler
                then Continue (print msg_type_execute (print (msg_loaded filename)
                       (s\<lparr>program_lines := program_lines s @ lines\<rparr>)))
                else run lines (print (msg_executing_from filename) s))))"

subsection \<open>\<^verbatim>\<open>_parse_and_execute_line\<close>: the dispatcher\<close>

definition print_help :: "state \<Rightarrow> state" where
  "print_help s = s\<lparr>stdout := stdout s @ map Print help_text\<rparr>"

text \<open>The \<^verbatim>\<open>execute\<close> branch, lines 245 to 261.\<close>

definition exec_execute ::
  "(string list \<Rightarrow> state \<Rightarrow> outcome) \<Rightarrow> bool \<Rightarrow> state \<Rightarrow> outcome" where
  "exec_execute run is_runtime_execution s =
     (if \<not> is_runtime_execution then
        (if mode s = Compiler then
           (if program_lines s = [] then Continue (print msg_no_program_lines s)
            else
              let s1 = print msg_executing_program s;
                  original_mode = mode s1;
                  s2 = s1\<lparr>mode := Interpreter\<rparr> in
              case run (program_lines s2) s2 of
                Exit code s3 \<Rightarrow> Exit code s3
              | Continue s3 \<Rightarrow>
                  Continue (print msg_execution_complete (s3\<lparr>mode := original_mode\<rparr>)))
         else Continue (print msg_execute_only_compiler s))
      else Continue (print msg_execute_ignored s))"

text \<open>The body of the \<^verbatim>\<open>try\<close> block, lines 105 to 277.\<close>

definition exec_command ::
  "(string list \<Rightarrow> state \<Rightarrow> outcome) \<Rightarrow> bool \<Rightarrow> string \<Rightarrow> string \<Rightarrow> string list \<Rightarrow> state
     \<Rightarrow> failure + outcome" where
  "exec_command run is_runtime_execution color_code processed_line parts s =
     (let command = lower (parts ! 0) in
      if command = ''define'' then exec_define is_runtime_execution processed_line parts s
      else if command = ''show''
        then exec_show is_runtime_execution color_code processed_line parts s
      else if command = ''help''
        then Inr (Continue (if \<not> is_runtime_execution then print_help s else s))
      else if command = ''save'' then
        (if \<not> is_runtime_execution then
           (if length parts \<ge> 2 then Inr (Continue (save_program (parts ! 1) s))
            else Inl (SyntaxError, msg_save_syntax))
         else Inr (Continue s))
      else if command = ''open'' then
        (if \<not> is_runtime_execution then
           (if length parts \<ge> 2 then Inr (open_program run (parts ! 1) s)
            else Inl (SyntaxError, msg_open_syntax))
         else Inr (Continue s))
      else if command = ''execute'' then Inr (exec_execute run is_runtime_execution s)
      else if command = ''int'' then
        Inr (Continue (if \<not> is_runtime_execution
                       then print msg_switched_interpreter (s\<lparr>mode := Interpreter\<rparr>)
                       else print msg_int_ignored s))
      else if command = ''comp'' then
        Inr (Continue (if \<not> is_runtime_execution
                       then print msg_switched_compiler (s\<lparr>mode := Compiler\<rparr>)
                       else print msg_comp_ignored s))
      else if \<not> is_runtime_execution
        then Inl (UnknownCommandError, msg_unknown_command command)
      else Inr (Continue s))"

text \<open>Lines 75 and 76, line 79, and lines 83 to 94.\<close>

definition record_history :: "bool \<Rightarrow> string \<Rightarrow> state \<Rightarrow> state" where
  "record_history is_runtime_execution line s =
     (if \<not> is_runtime_execution then s\<lparr>session_history := session_history s @ [line]\<rparr>
      else s)"

definition is_ignored :: "string \<Rightarrow> bool" where
  "is_ignored line = (strip line = [] \<or> startswith (strip line) ''$'')"

definition strip_color_tag :: "string \<Rightarrow> state \<Rightarrow> string \<times> string \<times> state" where
  "strip_color_tag line s =
     (case color_tag_search [] line of
        Some (pre, color_name_or_hex) \<Rightarrow>
          (let (color_code, s1) = get_ansi_color_code color_name_or_hex s in
           (color_code, strip pre, s1))
      | None \<Rightarrow> ([], strip line, s))"

text \<open>
  \<^verbatim>\<open>_parse_and_execute_line(line, is_runtime_execution)\<close>, with the method
  \<^verbatim>\<open>_run_program_lines\<close> that its \<^verbatim>\<open>execute\<close> and \<^verbatim>\<open>open\<close> branches call as
  first argument.
\<close>

definition parse_and_execute_line_with ::
  "(string list \<Rightarrow> state \<Rightarrow> outcome) \<Rightarrow> bool \<Rightarrow> string \<Rightarrow> state \<Rightarrow> outcome" where
  "parse_and_execute_line_with run is_runtime_execution line s0 =
     (let s = record_history is_runtime_execution line s0 in
      if is_ignored line then Continue s
      else
        let (color_code, processed_line, s1) = strip_color_tag line s;
            parts = split_ws 2 processed_line in
        if parts = [] then Continue s1
        else
          case exec_command run is_runtime_execution color_code processed_line parts s1 of
            Inl (kind, diagnostic) \<Rightarrow> Continue (print diagnostic s1)
          | Inr result \<Rightarrow> result)"

text \<open>
  \<^verbatim>\<open>_run_program_lines\<close>: every line is executed with \<^verbatim>\<open>is_runtime_execution=True\<close>,
  where no branch calls \<^verbatim>\<open>_run_program_lines\<close> again; \<^verbatim>\<open>SystemExit\<close> is raised
  again. The handler \<^verbatim>\<open>except Exception\<close> of lines 296 to 299 is never entered:
  \<^verbatim>\<open>_parse_and_execute_line\<close> catches every \<^verbatim>\<open>Exception\<close> of its commands itself.
\<close>

fun run_program_lines :: "string list \<Rightarrow> state \<Rightarrow> outcome" where
  "run_program_lines [] s = Continue s"
| "run_program_lines (line # lines) s =
     (case parse_and_execute_line_with (\<lambda>lines s. Continue s) True line s of
        Exit code s1 \<Rightarrow> Exit code s1
      | Continue s1 \<Rightarrow> run_program_lines lines s1)"

definition parse_and_execute_line :: "bool \<Rightarrow> string \<Rightarrow> state \<Rightarrow> outcome" where
  "parse_and_execute_line is_runtime_execution line s =
     parse_and_execute_line_with run_program_lines is_runtime_execution line s"

subsection \<open>\<^verbatim>\<open>run_repl\<close>\<close>

text \<open>
  The body of the loop of \<^verbatim>\<open>run_repl\<close> for a line \<open>user_input\<close> that was read
  (lines 450 to 473): the loop goes on, or \<^verbatim>\<open>break\<close>, or \<^verbatim>\<open>SystemExit\<close> leaves
  the process.
\<close>

datatype repl_result = Next state | Break state | SysExit nat state

definition control_commands :: "string list" where
  "control_commands = [''execute'', ''help'', ''save'', ''open'', ''int'', ''comp'', ''exit'']"

text \<open>\<^verbatim>\<open>re.sub(pattern, '', user_input)\<close>\<close>

definition remove_color_tag :: "string \<Rightarrow> string" where
  "remove_color_tag line =
     (case color_tag_search [] line of Some (pre, nm) \<Rightarrow> pre | None \<Rightarrow> line)"

definition of_outcome :: "outcome \<Rightarrow> repl_result" where
  "of_outcome r = (case r of Continue s \<Rightarrow> Next s | Exit code s \<Rightarrow> SysExit code s)"

definition repl_step :: "string \<Rightarrow> state \<Rightarrow> repl_result" where
  "repl_step user_input s =
     (if lower user_input = ''exit'' then Break (print msg_goodbye s)
      else if mode s = Compiler then
        (let temp_line_for_command_check = strip (remove_color_tag user_input) in
         if list_ex (\<lambda>cmd. startswith (lower temp_line_for_command_check) cmd) control_commands
         then of_outcome (parse_and_execute_line False user_input s)
         else Next (s\<lparr>program_lines := program_lines s @ [user_input]\<rparr>))
      else of_outcome (parse_and_execute_line False user_input s))"

text \<open>
  \<^verbatim>\<open>run_repl(file_to_execute)\<close> with a file (lines 425 to 441): the exit status of
  the process and the final state. A \<^verbatim>\<open>SystemExit\<close> of the replay is caught, and the
  method returns.
\<close>

definition run_file :: "string \<Rightarrow> state \<Rightarrow> nat \<times> state" where
  "run_file file_to_execute s =
     (if files s file_to_execute = None
      then (1, print (msg_file_not_found file_to_execute) s)
      else
        let s1 = print (msg_executing_file file_to_execute) s;
            original_mode = mode s1;
            s2 = s1\<lparr>mode := Interpreter\<rparr>;
            s3 = (case open_program run_program_lines file_to_execute s2 of
                    Continue t \<Rightarrow> t | Exit code t \<Rightarrow> t);
            s4 = s3\<lparr>mode := original_mode\<rparr> in
        (0, print (msg_finished file_to_execute) s4))"
subsection \<open>Observations and example states\<close>

text \<open>The state that an outcome carries.\<close>

definition final_state :: "outcome \<Rightarrow> state" where
  "final_state r = (case r of Continue s \<Rightarrow> s | Exit code s \<Rightarrow> s)"

text \<open>The state after \<^verbatim>\<open>__init__\<close> (lines 32 to 41), with the lines that the standard
  input holds, no file, and no path that fails to open.\<close>

definition init :: "string list \<Rightarrow> state" where
  "init input_lines = \<lparr>variables = Map.empty, program_lines = [], mode = Compiler,
     session_history = [], last_input_value = None, stdout = [], stdin = input_lines,
     files = Map.empty, read_error = Map.empty, write_error = Map.empty\<rparr>"

text \<open>
  The three results of the colour tag parsing of lines 83 to 94, each by itself:
  \<^verbatim>\<open>processed_line\<close>, \<^verbatim>\<open>color_code\<close>, and the state, which differs from the one
  before by the warning that \<^verbatim>\<open>_get_ansi_color_code\<close> prints for a hex colour.
\<close>

definition processed_line_of :: "string \<Rightarrow> string" where
  "processed_line_of line =
     (case color_tag_search [] line of Some (pre, nm) \<Rightarrow> strip pre | None \<Rightarrow> strip line)"

definition color_code_of :: "string \<Rightarrow> string" where
  "color_code_of line =
     (case color_tag_search [] line of
        Some (pre, nm) \<Rightarrow> (case map_of ANSI_COLORS (lower nm) of Some code \<Rightarrow> code | None \<Rightarrow> [])
      | None \<Rightarrow> [])"

definition color_warned :: "string \<Rightarrow> state \<Rightarrow> state" where
  "color_warned line s =
     (case color_tag_search [] line of
        Some (pre, nm) \<Rightarrow>
          if map_of ANSI_COLORS (lower nm) = None \<and> is_hex_color (lower nm)
          then print (msg_hex_warning nm) s else s
      | None \<Rightarrow> s)"


text \<open>A state with two buffered lines and one line of history.\<close>

definition save_example :: state where
  "save_example = (init [])\<lparr>program_lines := [''define y \"1\"'', ''show (y)''],
                             session_history := [''comp'']\<rparr>"


text \<open>The colour warning as a list of outputs: what \<open>color_warned\<close> adds.\<close>

definition hex_warning_of :: "string \<Rightarrow> out list" where
  "hex_warning_of line =
     (case color_tag_search [] line of
        Some (pre, nm) \<Rightarrow>
          if map_of ANSI_COLORS (lower nm) = None \<and> is_hex_color (lower nm)
          then [Print (msg_hex_warning nm)] else []
      | None \<Rightarrow> [])"

text \<open>\<^verbatim>\<open>parts\<close> (line 97) and \<^verbatim>\<open>command\<close> (line 102) of a line; a line that is
  ignored, or empty once its colour tag is removed, has no command.\<close>

definition parts_of :: "string \<Rightarrow> string list" where
  "parts_of line = split_ws 2 (processed_line_of line)"

definition command_of :: "string \<Rightarrow> string option" where
  "command_of line =
     (if is_ignored line then None
      else case parts_of line of [] \<Rightarrow> None | p # ps \<Rightarrow> Some (lower p))"

text \<open>Whether an outcome is \<^verbatim>\<open>SystemExit\<close>, and the state that a step of the loop of
  \<^verbatim>\<open>run_repl\<close> leaves.\<close>

definition is_exit :: "outcome \<Rightarrow> bool" where
  "is_exit r = (case r of Continue s \<Rightarrow> False | Exit code s \<Rightarrow> True)"

definition repl_state :: "repl_result \<Rightarrow> state" where
  "repl_state r = (case r of Next s \<Rightarrow> s | Break s \<Rightarrow> s | SysExit code s \<Rightarrow> s)"

text \<open>What the replay of one line prints when the line is a meta-command.\<close>

definition replay_warning :: "string \<Rightarrow> out list" where
  "replay_warning command =
     (if command = ''execute'' then [Print msg_execute_ignored]
      else if command = ''int'' then [Print msg_int_ignored]
      else if command = ''comp'' then [Print msg_comp_ignored]
      else [])"

text \<open>The failure of a replayed line, if its command fails: the kind of error and the
  text that the dispatcher prints.\<close>

definition replay_failure :: "string \<Rightarrow> state \<Rightarrow> failure option" where
  "replay_failure line s =
     (if is_ignored line \<or> parts_of line = [] then None
      else case exec_command run_program_lines True (color_code_of line)
                  (processed_line_of line) (parts_of line) (color_warned line s) of
             Inl f \<Rightarrow> Some f
           | Inr r \<Rightarrow> None)"

text \<open>A buffer of two lines, the first of which shows an undefined variable.\<close>

definition failing_program :: state where
  "failing_program = (init [])\<lparr>program_lines := [''show (x)'', ''define y \"1\"'']\<rparr>"

text \<open>One step of a replay: the next line is executed with
  \<^verbatim>\<open>is_runtime_execution=True\<close> unless the process has exited.\<close>

definition replay_step :: "outcome \<Rightarrow> string \<Rightarrow> outcome" where
  "replay_step r line =
     (case r of Continue s \<Rightarrow> parse_and_execute_line True line s | Exit code s \<Rightarrow> Exit code s)"

text \<open>\<^verbatim>\<open>full_value_argument\<close> (line 114) and \<^verbatim>\<open>full_show_argument\<close> (line 188) of a
  line.\<close>

definition define_argument :: "string \<Rightarrow> string" where
  "define_argument line =
     strip (drop (length ''define'' + length (parts_of line ! 1) + 1) (processed_line_of line))"

definition show_argument :: "string \<Rightarrow> string" where
  "show_argument line = strip (drop (length ''show'') (processed_line_of line))"

text \<open>
  What one pass of the loop of \<^verbatim>\<open>define\<close> (lines 124 to 146) and of the loop of
  \<^verbatim>\<open>show\<close> (lines 199 to 220) does with a part that is not empty: the text that it
  appends, or the error with which the command returns.
\<close>

definition define_operand :: "state \<Rightarrow> string \<Rightarrow> failure + string" where
  "define_operand s part =
     (if wrapped part [CHR 0x22] [CHR 0x22] then Inr (slice_1_m1 part)
      else if lower part = ''((input))'' then
        (case last_input_value s of
           Some v \<Rightarrow> Inr v
         | None \<Rightarrow> Inl (UnboundInputError, msg_define_no_input))
      else if wrapped part ''('' '')'' then
        (case variables s (var_name_in_paren part) of
           Some v \<Rightarrow> Inr v
         | None \<Rightarrow> Inl (UndefinedVariableError, msg_define_undefined (var_name_in_paren part)))
      else Inl (InvalidOperandError, msg_define_invalid part))"

definition show_operand :: "state \<Rightarrow> string \<Rightarrow> failure + string" where
  "show_operand s part =
     (if wrapped part [CHR 0x22] [CHR 0x22] then Inr (slice_1_m1 part)
      else if wrapped part ''('' '')'' then
        (case variables s (var_name_in_paren part) of
           Some v \<Rightarrow> Inr v
         | None \<Rightarrow> Inl (UndefinedVariableError, msg_show_undefined (var_name_in_paren part)))
      else Inl (InvalidOperandError, msg_show_invalid part))"

text \<open>Resolving the parts one after the other, up to the first that fails.\<close>

fun resolve_all :: "(string \<Rightarrow> 'e + string) \<Rightarrow> string list \<Rightarrow> 'e + string list" where
  "resolve_all r [] = Inr []"
| "resolve_all r (p # ps) =
     (case r p of
        Inl e \<Rightarrow> Inl e
      | Inr v \<Rightarrow> (case resolve_all r ps of Inl e \<Rightarrow> Inl e | Inr vs \<Rightarrow> Inr (v # vs)))"

subsection \<open>The concatenation of the specification\<close>

text \<open>
  The evaluator as the specification words it (section 4.1), to be compared with the
  loops of the source. The argument is split at every colon, the white space around each
  segment is removed, and empty segments are discarded.
\<close>

fun split_colon :: "string \<Rightarrow> string \<Rightarrow> string list" where
  "split_colon segment [] = [segment]"
| "split_colon segment (c # cs) =
     (if c = CHR '':'' then segment # split_colon [] cs else split_colon (segment @ [c]) cs)"

definition spec_segments :: "string \<Rightarrow> string list" where
  "spec_segments argument = filter (\<lambda>p. p \<noteq> []) (map strip (split_colon [] argument))"

text \<open>
  A token delimited by a pair of characters, as a literal is by two double quotes and a
  reference by a layer of parentheses, and what the pair encloses.
\<close>

definition delimited :: "char \<Rightarrow> char \<Rightarrow> string \<Rightarrow> bool" where
  "delimited l r token = (2 \<le> length token \<and> hd token = l \<and> last token = r)"

definition contents :: "string \<Rightarrow> string" where
  "contents token = butlast (tl token)"

text \<open>
  The name of a variable reference: the token is wrapped in one layer of parentheses, or
  in two layers; a token in three layers is no reference.
\<close>

definition spec_reference :: "string \<Rightarrow> string option" where
  "spec_reference token =
     (if \<not> delimited CHR ''('' CHR '')'' token then None
      else if \<not> delimited CHR ''('' CHR '')'' (contents token) then Some (contents token)
      else if \<not> delimited CHR ''('' CHR '')'' (contents (contents token))
        then Some (contents (contents token))
      else None)"

text \<open>
  The resolution rules of the specification, in their order: a token delimited by a pair
  of double quotes is the contents between the quotes; the input placeholder (in any
  letter case) is the last input, or an unbound input error; a token in one or two layers
  of parentheses is the variable of the inner name, or an undefined variable error;
  anything else is an invalid operand. The first argument says whether the rule of the
  input placeholder is among the rules.
\<close>

definition spec_resolve :: "bool \<Rightarrow> state \<Rightarrow> string \<Rightarrow> error_kind + string" where
  "spec_resolve placeholder s token =
     (if delimited (CHR 0x22) (CHR 0x22) token then Inr (contents token)
      else if placeholder \<and> lower token = ''((input))'' then
        (case last_input_value s of Some v \<Rightarrow> Inr v | None \<Rightarrow> Inl UnboundInputError)
      else
        (case spec_reference token of
           Some name \<Rightarrow>
             (case variables s name of Some v \<Rightarrow> Inr v | None \<Rightarrow> Inl UndefinedVariableError)
         | None \<Rightarrow> Inl InvalidOperandError))"

text \<open>
  The two kinds of token on which the source does not follow these rules: a lone double
  quote, which the source takes for an empty literal, and a token in three layers of
  parentheses, of which the source removes two.
\<close>

definition irregular :: "string \<Rightarrow> bool" where
  "irregular token =
     (token = [CHR 0x22] \<or>
      (delimited CHR ''('' CHR '')'' token \<and> delimited CHR ''('' CHR '')'' (contents token) \<and>
       delimited CHR ''('' CHR '')'' (contents (contents token))))"

text \<open>Each segment is resolved, the first failure is the result, and the resolved
  strings are joined with no separator.\<close>

definition spec_concatenation :: "bool \<Rightarrow> state \<Rightarrow> string \<Rightarrow> error_kind + string" where
  "spec_concatenation placeholder s argument =
     (case resolve_all (spec_resolve placeholder s) (spec_segments argument) of
        Inl e \<Rightarrow> Inl e
      | Inr vs \<Rightarrow> Inr (concat vs))"

subsection \<open>More example states\<close>

text \<open>The state after \<^verbatim>\<open>define first "Jane"\<close> and \<^verbatim>\<open>define last "Doe"\<close>.\<close>

definition jane_doe :: state where
  "jane_doe = final_state (run_program_lines
     [''define first \"Jane\"'', ''define last \"Doe\"''] (init []))"


text \<open>A file with the two lines of \<open>failing_program\<close>.\<close>

definition failing_file :: state where
  "failing_file = (init [])\<lparr>files :=
     [''p.zcli'' \<mapsto> ''show (x)'' @ [CHR 0x0A] @ ''define y \"1\"'' @ [CHR 0x0A]]\<rparr>"
section \<open>Properties\<close>

subsection \<open>The structure of the dispatcher\<close>

lemma strip_color_tag_eq:
  "strip_color_tag line s = (color_code_of line, processed_line_of line, color_warned line s)"
  by (simp add: strip_color_tag_def color_code_of_def processed_line_of_def color_warned_def
      get_ansi_color_code_def split: option.splits)

lemma parse_unfold:
  assumes "\<not> is_ignored line" and "split_ws 2 (processed_line_of line) \<noteq> []"
  shows "parse_and_execute_line_with run rt line s =
    (case exec_command run rt (color_code_of line) (processed_line_of line)
            (split_ws 2 (processed_line_of line)) (color_warned line (record_history rt line s)) of
       Inl (kind, diagnostic) \<Rightarrow>
         Continue (print diagnostic (color_warned line (record_history rt line s)))
     | Inr result \<Rightarrow> result)"
  using assms by (simp add: parse_and_execute_line_with_def strip_color_tag_eq Let_def)

text \<open>
  With \<^verbatim>\<open>is_runtime_execution=True\<close> no branch calls \<^verbatim>\<open>_run_program_lines\<close>, so
  the functions satisfy the recursive equations of the two methods of the source.
\<close>

lemma exec_command_runtime:
  "exec_command run True cc pl parts s = exec_command run' True cc pl parts s"
  by (simp add: exec_command_def exec_execute_def Let_def)

lemma parse_runtime:
  "parse_and_execute_line_with run True line s = parse_and_execute_line True line s"
  unfolding parse_and_execute_line_with_def parse_and_execute_line_def
  by (simp add: Let_def exec_command_runtime [of run _ _ _ _ run_program_lines] split: prod.splits)

lemma run_program_lines_Cons:
  "run_program_lines (line # lines) s =
     (case parse_and_execute_line True line s of
        Exit code s1 \<Rightarrow> Exit code s1
      | Continue s1 \<Rightarrow> run_program_lines lines s1)"
  by (simp add: parse_runtime)

text \<open>The dispatcher on a line that has a command.\<close>

lemma color_warned_eq: "color_warned line s = s\<lparr>stdout := stdout s @ hex_warning_of line\<rparr>"
  by (simp add: color_warned_def hex_warning_of_def print_def split: option.splits)

lemma command_ofD:
  assumes "command_of line = Some c"
  shows "\<not> is_ignored line" and "parts_of line \<noteq> []" and "lower (parts_of line ! 0) = c"
  using assms by (auto simp: command_of_def split: if_splits list.splits)

lemma parse_command:
  assumes "command_of line = Some c"
  shows "parse_and_execute_line_with run rt line s =
    (case exec_command run rt (color_code_of line) (processed_line_of line) (parts_of line)
            (color_warned line (record_history rt line s)) of
       Inl (kind, diagnostic) \<Rightarrow>
         Continue (print diagnostic (color_warned line (record_history rt line s)))
     | Inr result \<Rightarrow> result)"
  using command_ofD [OF assms] parse_unfold [of line run rt s] by (simp add: parts_of_def)

subsection \<open>Saving\<close>

lemma lower_zcli: "lower ''.zcli'' = ''.zcli''"
  by (simp add: lower_def lower_char_def)

lemma endswith_lower:
  assumes "endswith filename ''.zcli''"
  shows "endswith (lower filename) ''.zcli''"
proof -
  define n where "n = length filename - length ''.zcli''"
  from assms have len: "length ''.zcli'' \<le> length filename"
    and tail: "drop n filename = ''.zcli''"
    by (simp_all add: endswith_def n_def)
  have "drop n (lower filename) = lower (drop n filename)"
    by (simp add: lower_def drop_map)
  with tail have "drop n (lower filename) = ''.zcli''"
    by (simp only: lower_zcli)
  with len show ?thesis
    unfolding endswith_def n_def lower_def by simp
qed

lemma endswith_append_suffix: "endswith (a @ p) p"
  by (simp add: endswith_def)

lemma save_filename_idem: "save_filename (save_filename filename) = save_filename filename"
proof (cases "endswith (lower filename) ''.zcli''")
  case True
  then show ?thesis by (simp add: save_filename_def)
next
  case False
  have "lower (filename @ ''.zcli'') = lower filename @ ''.zcli''"
    using lower_zcli by (simp add: lower_def)
  then have "endswith (lower (filename @ ''.zcli'')) ''.zcli''"
    by (simp only: endswith_append_suffix)
  with False show ?thesis by (simp add: save_filename_def)
qed

lemma cut_lines_line:
  assumes "CHR 0x0A \<notin> set l" and "CHR 0x0D \<notin> set l"
  shows "cut_lines acc (l @ CHR 0x0A # rest) = (acc @ l) # cut_lines [] rest"
  using assms by (induction l arbitrary: acc) auto

lemma cut_lines_written_text:
  assumes "\<forall>l \<in> set lines. CHR 0x0A \<notin> set l \<and> CHR 0x0D \<notin> set l"
  shows "cut_lines [] (written_text lines) = lines @ [[]]"
  using assms
proof (induction lines)
  case Nil
  then show ?case by (simp add: written_text_def)
next
  case (Cons l ls)
  then have "cut_lines [] (l @ CHR 0x0A # written_text ls) = ([] @ l) # cut_lines [] (written_text ls)"
    by (intro cut_lines_line) simp_all
  with Cons show ?case by (simp add: written_text_def)
qed

lemma files_save_program:
  assumes "write_error s (save_filename filename) = None"
  shows "files (save_program filename s) (save_filename filename) =
           Some (written_text (if mode s = Compiler then program_lines s else session_history s))"
  using assms by (simp add: save_program_def print_def Let_def)

text \<open>A typed \<^verbatim>\<open>save\<close> line with a file name calls \<^verbatim>\<open>_save_program\<close> (lines 230 to 234).\<close>

lemma parse_save:
  assumes "command_of line = Some ''save''" and "2 \<le> length (parts_of line)"
  shows "parse_and_execute_line False line s =
    Continue (save_program (parts_of line ! 1) (color_warned line (record_history False line s)))"
proof -
  have c: "lower (parts_of line ! 0) = ''save''" using assms(1) by (rule command_ofD)
  show ?thesis
    unfolding parse_and_execute_line_def parse_command [OF assms(1)]
    using assms(2) by (simp add: exec_command_def c)
qed

text \<open>
  Claim C9, amended. A typed line \<^verbatim>\<open>save <filename>\<close>, when the file can be opened
  for writing, writes to \<^verbatim>\<open>filename\<close> with \<^verbatim>\<open>.zcli\<close> appended when the name does
  not end with \<^verbatim>\<open>.zcli\<close> in any letter case, and to the name itself when it does, so
  that the suffix is never doubled. The file holds the program buffer when the mode is
  \<^verbatim>\<open>compiler\<close> and otherwise the session history, which ends with the
  \<^verbatim>\<open>save\<close> line itself; each stored line is followed by a line end, so that, when no
  stored line holds a line end, cutting the file at its line ends gives the stored lines
  back, and an empty rest. Nothing else changes but the history and the printed message.
\<close>

theorem save_command_persists:
  assumes "command_of line = Some ''save''" and "2 \<le> length (parts_of line)"
    and "write_error s (save_filename (parts_of line ! 1)) = None"
  shows "parse_and_execute_line False line s =
      Continue (s\<lparr>session_history := session_history s @ [line],
        files := (files s)(save_filename (parts_of line ! 1) \<mapsto>
          written_text (if mode s = Compiler then program_lines s
                        else session_history s @ [line])),
        stdout := stdout s @ hex_warning_of line @
          [Print (if mode s = Compiler then msg_saved_buffer (save_filename (parts_of line ! 1))
                  else msg_saved_history (save_filename (parts_of line ! 1)))]\<rparr>)
    \<and> (endswith (lower (parts_of line ! 1)) ''.zcli'' \<longrightarrow>
         save_filename (parts_of line ! 1) = parts_of line ! 1)
    \<and> (\<not> endswith (lower (parts_of line ! 1)) ''.zcli'' \<longrightarrow>
         save_filename (parts_of line ! 1) = parts_of line ! 1 @ ''.zcli'')
    \<and> save_filename (save_filename (parts_of line ! 1)) = save_filename (parts_of line ! 1)
    \<and> ((\<forall>l \<in> set (if mode s = Compiler then program_lines s else session_history s @ [line]).
           CHR 0x0A \<notin> set l \<and> CHR 0x0D \<notin> set l) \<longrightarrow>
        map_option (cut_lines [])
          (files (final_state (parse_and_execute_line False line s))
             (save_filename (parts_of line ! 1))) =
          Some ((if mode s = Compiler then program_lines s else session_history s @ [line]) @ [[]]))"
proof -
  define t where "t = color_warned line (record_history False line s)"
  have w: "write_error t (save_filename (parts_of line ! 1)) = None"
    using assms(3) by (simp add: t_def color_warned_eq record_history_def)
  have p: "parse_and_execute_line False line s =
      Continue (s\<lparr>session_history := session_history s @ [line],
        files := (files s)(save_filename (parts_of line ! 1) \<mapsto>
          written_text (if mode s = Compiler then program_lines s
                        else session_history s @ [line])),
        stdout := stdout s @ hex_warning_of line @
          [Print (if mode s = Compiler then msg_saved_buffer (save_filename (parts_of line ! 1))
                  else msg_saved_history (save_filename (parts_of line ! 1)))]\<rparr>)"
    unfolding parse_save [OF assms(1,2)] t_def [symmetric]
    using w by (simp add: save_program_def Let_def print_def t_def color_warned_eq record_history_def)
  show ?thesis
    unfolding p
    using save_filename_idem cut_lines_written_text
    by (simp add: save_filename_def final_state_def)
qed

theorem save_command_persists_witness:
  "command_of ''save out'' = Some ''save''
   \<and> 2 \<le> length (parts_of ''save out'')
   \<and> write_error save_example (save_filename (parts_of ''save out'' ! 1)) = None
   \<and> parse_and_execute_line False ''save out'' save_example =
      Continue (save_example\<lparr>session_history := session_history save_example @ [''save out''],
        files := (files save_example)(save_filename (parts_of ''save out'' ! 1) \<mapsto>
          written_text (if mode save_example = Compiler then program_lines save_example
                        else session_history save_example @ [''save out''])),
        stdout := stdout save_example @ hex_warning_of ''save out'' @
          [Print (if mode save_example = Compiler
                  then msg_saved_buffer (save_filename (parts_of ''save out'' ! 1))
                  else msg_saved_history (save_filename (parts_of ''save out'' ! 1)))]\<rparr>)
   \<and> save_filename (parts_of ''save out'' ! 1) = ''out.zcli''
   \<and> save_filename (parts_of ''save out.zcli'' ! 1) = ''out.zcli''
   \<and> files (final_state (parse_and_execute_line False ''save out'' save_example)) ''out.zcli'' =
       Some (''define y \"1\"'' @ [CHR 0x0A] @ ''show (y)'' @ [CHR 0x0A])
   \<and> files (final_state (parse_and_execute_line False ''save out''
         (save_example\<lparr>mode := Interpreter\<rparr>))) ''out.zcli'' =
       Some (''comp'' @ [CHR 0x0A] @ ''save out'' @ [CHR 0x0A])"
proof -
  have c: "command_of ''save out'' = Some ''save''"
    and n: "2 \<le> length (parts_of ''save out'')"
    and w: "write_error save_example (save_filename (parts_of ''save out'' ! 1)) = None"
    by code_simp+
  have o: "save_filename (parts_of ''save out'' ! 1) = ''out.zcli''"
    "save_filename (parts_of ''save out.zcli'' ! 1) = ''out.zcli''"
    "files (final_state (parse_and_execute_line False ''save out'' save_example)) ''out.zcli'' =
       Some (''define y \"1\"'' @ [CHR 0x0A] @ ''show (y)'' @ [CHR 0x0A])"
    "files (final_state (parse_and_execute_line False ''save out''
         (save_example\<lparr>mode := Interpreter\<rparr>))) ''out.zcli'' =
       Some (''comp'' @ [CHR 0x0A] @ ''save out'' @ [CHR 0x0A])"
    by code_simp+
  note t = save_command_persists [OF c n w, THEN conjunct1]
  show ?thesis using c n w o by (intro conjI) (rule t | simp)+
qed

text \<open>
  The claim as stated appends the suffix to every name that lacks \<^verbatim>\<open>.zcli\<close>. The name
  \<^verbatim>\<open>Prog.ZCLI\<close> does not end with \<^verbatim>\<open>.zcli\<close>, and \<^verbatim>\<open>save Prog.ZCLI\<close> writes to
  \<^verbatim>\<open>Prog.ZCLI\<close>: the test of line 380 is on the name in lower case.
\<close>

theorem save_keeps_capital_suffix:
  "\<not> endswith ''Prog.ZCLI'' ''.zcli''
   \<and> command_of ''save Prog.ZCLI'' = Some ''save''
   \<and> parts_of ''save Prog.ZCLI'' ! 1 = ''Prog.ZCLI''
   \<and> files (final_state (parse_and_execute_line False ''save Prog.ZCLI'' save_example))
        ''Prog.ZCLI.zcli'' = None
   \<and> files (final_state (parse_and_execute_line False ''save Prog.ZCLI'' save_example))
        ''Prog.ZCLI'' = Some (''define y \"1\"'' @ [CHR 0x0A] @ ''show (y)'' @ [CHR 0x0A])"
  by code_simp

subsection \<open>White space and ignored lines\<close>

lemma isspace_lower_char: "isspace c \<Longrightarrow> lower_char c = c"
  by (auto simp: isspace_def lower_char_def Let_def)

lemma strip_Nil_iff: "strip s = [] \<longleftrightarrow> dropWhile isspace s = []"
proof
  assume "strip s = []"
  then have e: "dropWhile isspace (rev (dropWhile isspace s)) = []" by (simp add: strip_def)
  show "dropWhile isspace s = []"
  proof (rule ccontr)
    assume ne: "dropWhile isspace s \<noteq> []"
    then have "\<not> isspace (hd (dropWhile isspace s))" by (rule hd_dropWhile)
    moreover have "hd (dropWhile isspace s) \<in> set (rev (dropWhile isspace s))" using ne by simp
    ultimately show False using e by (auto simp: dropWhile_eq_Nil_conv)
  qed
next
  assume a: "dropWhile isspace s = []"
  show "strip s = []" unfolding strip_def a by simp
qed

lemma strip_hd:
  assumes "dropWhile isspace s = c # r"
  shows "\<exists>r'. strip s = c # r'"
proof -
  have c: "\<not> isspace c" using hd_dropWhile [of isspace s] assms by simp
  have "dropWhile isspace (rev r @ [c]) = dropWhile isspace (rev r) @ [c]
        \<or> dropWhile isspace (rev r @ [c]) = [c]"
    using c by (simp add: dropWhile_append)
  then obtain ys where "dropWhile isspace (rev r @ [c]) = ys @ [c]" by (metis append_Nil)
  then show ?thesis using assms by (simp add: strip_def)
qed

lemma is_ignored_hd:
  assumes "is_ignored line"
  shows "dropWhile isspace line = [] \<or> hd (dropWhile isspace line) = CHR ''$''"
proof (cases "dropWhile isspace line")
  case Nil then show ?thesis by simp
next
  case (Cons c r)
  then obtain r' where s: "strip line = c # r'" using strip_hd by blast
  with assms have "c = CHR ''$''" by (simp add: is_ignored_def startswith_def)
  with Cons show ?thesis by simp
qed

text \<open>The colour tag search: the line is the text before the match and the match.\<close>

lemma color_tag_search_split:
  "color_tag_search pre s = Some (p, nm) \<Longrightarrow>
     \<exists>a b. p = pre @ a \<and> s = a @ b \<and> color_tag_at b = Some nm"
proof (induction s arbitrary: pre)
  case Nil
  then show ?case by simp
next
  case (Cons c cs)
  show ?case
  proof (cases "color_tag_at (c # cs)")
    case (Some n)
    with Cons.prems have "p = pre @ [] \<and> c # cs = [] @ (c # cs) \<and> color_tag_at (c # cs) = Some nm"
      by simp
    then show ?thesis by blast
  next
    case None
    with Cons.prems have "color_tag_search (pre @ [c]) cs = Some (p, nm)" by simp
    from Cons.IH [OF this] obtain a b
      where "p = (pre @ [c]) @ a" "cs = a @ b" "color_tag_at b = Some nm" by blast
    then have "p = pre @ (c # a) \<and> c # cs = (c # a) @ b \<and> color_tag_at b = Some nm" by simp
    then show ?thesis by blast
  qed
qed

lemma color_tag_at_paren:
  assumes "color_tag_at b = Some nm"
  shows "\<exists>r. dropWhile isspace b = CHR ''('' # r"
proof -
  from assms have "startswith (dropWhile isspace b) ''((color''"
    by (auto simp: color_tag_at_def Let_def split: if_splits)
  then show ?thesis
    by (cases "dropWhile isspace b") (auto simp: startswith_def)
qed

lemma ignored_without_tag:
  assumes "is_ignored line"
  shows "strip (remove_color_tag line) = [] \<or> hd (strip (remove_color_tag line)) = CHR ''$''"
proof (cases "color_tag_search [] line")
  case None
  then have "remove_color_tag line = line" by (simp add: remove_color_tag_def)
  then show ?thesis
    using assms by (auto simp: is_ignored_def startswith_def) (cases "strip line", auto)
next
  case (Some pn)
  obtain p nm where pn: "pn = (p, nm)" by (cases pn)
  from Some pn color_tag_search_split [of "[]" line p nm] obtain b
    where line: "line = p @ b" and tag: "color_tag_at b = Some nm" by auto
  from tag obtain r where b: "dropWhile isspace b = CHR ''('' # r"
    using color_tag_at_paren by blast
  have rm: "remove_color_tag line = p" using Some pn by (simp add: remove_color_tag_def)
  show ?thesis
  proof (cases "dropWhile isspace p")
    case Nil
    then have "dropWhile isspace line = CHR ''('' # r"
      using line b by (simp add: dropWhile_append dropWhile_eq_Nil_conv)
    with is_ignored_hd [OF assms] show ?thesis by simp
  next
    case (Cons c q)
    then have "\<exists>x\<in>set p. \<not> isspace x"
      by (metis dropWhile_eq_Nil_conv list.distinct(1))
    then obtain x where "x \<in> set p" "\<not> isspace x" by blast
    then have "dropWhile isspace (p @ b) = dropWhile isspace p @ b"
      by (rule dropWhile_append1)
    then have "dropWhile isspace line = (c # q) @ b"
      using line Cons by simp
    with is_ignored_hd [OF assms] have "c = CHR ''$''" by simp
    moreover obtain q' where "strip p = c # q'" using Cons strip_hd by blast
    ultimately show ?thesis using rm by simp
  qed
qed

lemma ignored_not_control:
  assumes "is_ignored line"
  shows "\<not> list_ex (\<lambda>cmd. startswith (lower (strip (remove_color_tag line))) cmd) control_commands"
proof -
  define t where "t = strip (remove_color_tag line)"
  have "t = [] \<or> hd t = CHR ''$''" unfolding t_def using assms by (rule ignored_without_tag)
  then have "lower t = [] \<or> hd (lower t) = CHR ''$''"
    by (cases t) (auto simp: lower_def lower_char_def)
  then show ?thesis
    unfolding t_def [symmetric]
    by (cases "lower t") (auto simp: control_commands_def startswith_def)
qed

lemma ignored_not_exit:
  assumes "is_ignored line"
  shows "lower line \<noteq> ''exit''"
proof
  assume e: "lower line = ''exit''"
  then obtain c cs where line: "line = c # cs" and c: "lower_char c = CHR ''e''"
    by (cases line) (auto simp: lower_def)
  show False
  proof (cases "isspace c")
    case True
    then have "lower_char c = c" by (rule isspace_lower_char)
    with c True show False by (simp add: isspace_def)
  next
    case False
    then have "dropWhile isspace line = c # cs" using line by simp
    with is_ignored_hd [OF assms] have "c = CHR ''$''" by simp
    with c show False by (simp add: lower_char_def)
  qed
qed


subsection \<open>Meta-commands during a replay\<close>

text \<open>
  During a replay (\<^verbatim>\<open>is_runtime_execution=True\<close>) a line whose command is
  \<^verbatim>\<open>save\<close>, \<^verbatim>\<open>open\<close>, \<^verbatim>\<open>execute\<close>, \<^verbatim>\<open>int\<close>, \<^verbatim>\<open>comp\<close> or \<^verbatim>\<open>help\<close> changes
  nothing but the output: the warning of a hex colour tag, if the line has one, and the
  warning of the command, which only \<^verbatim>\<open>execute\<close>, \<^verbatim>\<open>int\<close> and \<^verbatim>\<open>comp\<close> have.
\<close>

lemma replayed_meta_command:
  assumes "command_of line = Some c"
    and "c \<in> {''save'', ''open'', ''execute'', ''int'', ''comp'', ''help''}"
  shows "parse_and_execute_line True line s =
           Continue (s\<lparr>stdout := stdout s @ hex_warning_of line @ replay_warning c\<rparr>)"
proof -
  have c: "lower (parts_of line ! 0) = c" using assms(1) by (rule command_ofD)
  have "exec_command run_program_lines True (color_code_of line) (processed_line_of line)
          (parts_of line) (color_warned line s) =
        Inr (Continue (s\<lparr>stdout := stdout s @ hex_warning_of line @ replay_warning c\<rparr>))"
    using assms(2) unfolding exec_command_def exec_execute_def c Let_def
    by (auto simp: color_warned_eq print_def replay_warning_def)
  then show ?thesis
    unfolding parse_and_execute_line_def
    by (simp add: parse_command [OF assms(1)] record_history_def)
qed

text \<open>
  Claim C7 says that each meta-command of a replayed line is suppressed, logs a warning
  and has no effect. It has no effect, and the branches of \<^verbatim>\<open>execute\<close>, \<^verbatim>\<open>int\<close> and
  \<^verbatim>\<open>comp\<close> log the warning (lines 259 to 273); the branches of \<^verbatim>\<open>save\<close>,
  \<^verbatim>\<open>open\<close> and \<^verbatim>\<open>help\<close> (lines 227 to 243) lack it: replayed, \<^verbatim>\<open>save test\<close>,
  \<^verbatim>\<open>open test\<close> and \<^verbatim>\<open>help\<close> print nothing, where \<^verbatim>\<open>int\<close> prints its warning.
\<close>

theorem replayed_save_logs_nothing:
  "command_of ''save test'' = Some ''save''
   \<and> stdout (final_state (parse_and_execute_line True ''save test'' (init []))) = []
   \<and> command_of ''open test'' = Some ''open''
   \<and> stdout (final_state (parse_and_execute_line True ''open test'' (init []))) = []
   \<and> command_of ''help'' = Some ''help''
   \<and> stdout (final_state (parse_and_execute_line True ''help'' (init []))) = []
   \<and> stdout (final_state (parse_and_execute_line True ''int'' (init []))) =
       [Print msg_int_ignored]"
  by code_simp

subsection \<open>Blank lines and comments\<close>

text \<open>
  Claim C8, amended. A line that is empty or all white space, or whose stripped form
  starts with \<^verbatim>\<open>$\<close>, prints nothing and changes neither the variables, the input slot
  nor the mode. It is still recorded as a line: in compiler mode the loop of
  \<^verbatim>\<open>run_repl\<close> appends it to the program buffer, as it does with every line that is not
  a control command, and in interpreter mode \<^verbatim>\<open>_parse_and_execute_line\<close> appends it to
  the session history before it ignores it. Replayed, the line changes nothing at all.
\<close>

theorem ignored_line:
  assumes "is_ignored line"
  shows "parse_and_execute_line True line s = Continue s
    \<and> parse_and_execute_line False line s =
        Continue (s\<lparr>session_history := session_history s @ [line]\<rparr>)
    \<and> repl_step line s =
        Next (if mode s = Compiler then s\<lparr>program_lines := program_lines s @ [line]\<rparr>
              else s\<lparr>session_history := session_history s @ [line]\<rparr>)"
proof -
  have parse: "parse_and_execute_line rt line s = Continue (record_history rt line s)" for rt
    using assms
    by (simp add: parse_and_execute_line_def parse_and_execute_line_with_def Let_def)
  show ?thesis
    using ignored_not_exit [OF assms] ignored_not_control [OF assms]
    by (simp add: parse repl_step_def record_history_def of_outcome_def Let_def)
qed

theorem ignored_line_witness:
  "is_ignored ''$ note''
   \<and> parse_and_execute_line True ''$ note'' (init []) = Continue (init [])
   \<and> parse_and_execute_line False ''$ note'' (init []) =
       Continue ((init [])\<lparr>session_history := [''$ note'']\<rparr>)
   \<and> repl_step ''$ note'' (init []) = Next ((init [])\<lparr>program_lines := [''$ note'']\<rparr>)
   \<and> repl_step ''  '' ((init [])\<lparr>mode := Interpreter\<rparr>) =
       Next ((init [])\<lparr>mode := Interpreter, session_history := [''  '']\<rparr>)"
proof -
  have i: "is_ignored ''$ note''" by code_simp
  have j: "is_ignored ''  ''" by code_simp
  show ?thesis
    using ignored_line [OF i, of "init []"] ignored_line [OF j, of "(init [])\<lparr>mode := Interpreter\<rparr>"] i
    by (simp add: init_def)
qed

text \<open>
  The claim as stated says that the program buffer and the session history are left
  unchanged in both modes. In compiler mode the comment line is in the buffer afterwards,
  in interpreter mode it is in the history.
\<close>

theorem comment_line_is_buffered:
  "is_ignored ''$ note''
   \<and> program_lines (init []) = []
   \<and> program_lines (repl_state (repl_step ''$ note'' (init []))) = [''$ note'']
   \<and> session_history ((init [])\<lparr>mode := Interpreter\<rparr>) = []
   \<and> session_history (repl_state (repl_step ''$ note'' ((init [])\<lparr>mode := Interpreter\<rparr>))) = [''$ note'']"
  by code_simp

subsection \<open>Which lines the loop of \<^verbatim>\<open>run_repl\<close> buffers\<close>

text \<open>
  Claim C6 says that in compiler mode a typed line is buffered exactly when its command
  word is none of the control commands. The loop tests instead whether the line, in
  lower case and without its colour tag, starts with the text of a control command
  (line 464). The line \<^verbatim>\<open>internal\<close> starts with \<^verbatim>\<open>int\<close>: its command word
  \<^verbatim>\<open>internal\<close> is no control command, yet the line is not buffered but executed at
  once, which prints the unknown command error.
\<close>

theorem prefix_of_control_command_not_buffered:
  "mode (init []) = Compiler
   \<and> command_of ''internal'' = Some ''internal''
   \<and> ''internal'' \<notin> set control_commands
   \<and> program_lines (repl_state (repl_step ''internal'' (init []))) = []
   \<and> stdout (repl_state (repl_step ''internal'' (init []))) =
       [Print (msg_unknown_command ''internal'')]
   \<and> session_history (repl_state (repl_step ''internal'' (init []))) = [''internal'']"
  by code_simp


subsection \<open>Errors during a replay\<close>

lemma define_loop_kind:
  "define_loop s ps acc = Inl (kind, msg) \<Longrightarrow>
     kind \<in> {UndefinedVariableError, UnboundInputError, InvalidOperandError}"
  by (induction ps arbitrary: acc) (auto split: if_splits option.splits)

lemma show_loop_kind:
  "show_loop s ps acc = Inl (kind, msg) \<Longrightarrow>
     kind \<in> {UndefinedVariableError, InvalidOperandError}"
  by (induction ps arbitrary: acc) (auto split: if_splits option.splits)

lemma exec_define_kind:
  assumes "exec_define rt pl parts s = Inl (kind, msg)"
  shows "kind \<in> {SyntaxError, UndefinedVariableError, UnboundInputError, InvalidOperandError}"
proof (cases "2 \<le> length parts \<and> \<not> length parts < 3")
  case True
  with assms obtain ps where "define_loop s ps [] = Inl (kind, msg)"
    by (auto simp: exec_define_def Let_def split: sum.splits)
  from define_loop_kind [OF this] show ?thesis by auto
next
  case False
  with assms show ?thesis by (auto simp: exec_define_def Let_def split: if_splits)
qed

lemma exec_show_kind:
  assumes "exec_show rt cc pl parts s = Inl (kind, msg)"
  shows "kind \<in> {SyntaxError, UndefinedVariableError, UnboundInputError, InvalidOperandError}"
proof (cases "\<not> length parts < 2 \<and> lower (parts ! 1) \<noteq> ''input'' \<and> lower (parts ! 1) \<noteq> ''((input))''")
  case True
  with assms obtain ps where "show_loop s ps [] = Inl (kind, msg)"
    by (auto simp: exec_show_def Let_def split: sum.splits)
  from show_loop_kind [OF this] show ?thesis by auto
next
  case False
  with assms show ?thesis
    by (auto simp: exec_show_def Let_def split: if_splits option.splits prod.splits)
qed

lemma exec_command_replay_kind:
  assumes "exec_command run True cc pl parts s = Inl (kind, msg)"
  shows "kind \<in> {SyntaxError, UndefinedVariableError, UnboundInputError, InvalidOperandError}"
  using assms exec_define_kind exec_show_kind
  by (auto simp: exec_command_def Let_def split: if_splits)

lemma run_program_lines_append:
  "run_program_lines (a @ b) s =
     (case run_program_lines a s of
        Exit code t \<Rightarrow> Exit code t
      | Continue t \<Rightarrow> run_program_lines b t)"
  by (induction a arbitrary: s) (auto split: outcome.splits)

lemma replay_failure_parse:
  assumes "replay_failure line s = Some (kind, msg)"
  shows "parse_and_execute_line True line s =
           Continue (s\<lparr>stdout := stdout s @ hex_warning_of line @ [Print msg]\<rparr>)"
proof -
  from assms have ni: "\<not> is_ignored line" and ne: "split_ws 2 (processed_line_of line) \<noteq> []"
    and ex: "exec_command run_program_lines True (color_code_of line) (processed_line_of line)
               (parts_of line) (color_warned line s) = Inl (kind, msg)"
    by (auto simp: replay_failure_def parts_of_def split: if_splits sum.splits)
  show ?thesis
    unfolding parse_and_execute_line_def
    using ex by (simp add: parse_unfold [OF ni ne] parts_of_def [symmetric] record_history_def
        color_warned_eq print_def)
qed

text \<open>
  What a replay does at a line whose command fails: the text of the error (after the
  warning of a hex colour tag, if the line has one) is printed, and the replay goes on
  with the next line. The failure is never an unknown command, which a replay skips.
\<close>

lemma replay_after_failed_line:
  assumes "run_program_lines before s = Continue t"
    and "replay_failure line t = Some (kind, msg)"
  shows "parse_and_execute_line True line t =
           Continue (t\<lparr>stdout := stdout t @ hex_warning_of line @ [Print msg]\<rparr>)
    \<and> run_program_lines (before @ line # rest) s =
        run_program_lines rest (t\<lparr>stdout := stdout t @ hex_warning_of line @ [Print msg]\<rparr>)
    \<and> kind \<in> {SyntaxError, UndefinedVariableError, UnboundInputError, InvalidOperandError}"
proof -
  have p: "parse_and_execute_line True line t =
      Continue (t\<lparr>stdout := stdout t @ hex_warning_of line @ [Print msg]\<rparr>)"
    using assms(2) by (rule replay_failure_parse)
  have k: "kind \<in> {SyntaxError, UndefinedVariableError, UnboundInputError, InvalidOperandError}"
    using assms(2) exec_command_replay_kind
    by (auto simp: replay_failure_def split: if_splits sum.splits)
  show ?thesis
    using p k assms(1) by (simp add: run_program_lines_append parse_runtime)
qed

text \<open>
  Claim C1 says that a replayed line that fails with a syntax, undefined variable,
  unbound input or invalid operand error prints its diagnostic, ends the replay at once
  and ends the process with a non-zero status. The handlers of the source are written
  for that (lines 280 to 283 and 294 to 299 stop the program at the first error), but the
  commands print their errors and return, they do not raise, and no handler is reached.
  With the buffer \<^verbatim>\<open>show (x)\<close>, \<^verbatim>\<open>define y "1"\<close>, the command \<^verbatim>\<open>execute\<close> prints the
  error of the first line, then runs the second one, which defines \<^verbatim>\<open>y\<close>, and
  returns. A file with these two lines, given as the argument of the program, is run to
  its end in the same way, and the status of the process is 0.
\<close>

theorem replay_goes_on_after_error:
  "replay_failure ''show (x)'' (failing_program\<lparr>mode := Interpreter\<rparr>) =
     Some (UndefinedVariableError, msg_show_undefined ''x'')
   \<and> \<not> is_exit (parse_and_execute_line False ''execute'' failing_program)
   \<and> variables (final_state (parse_and_execute_line False ''execute'' failing_program)) ''y'' =
       Some ''1''
   \<and> stdout (final_state (parse_and_execute_line False ''execute'' failing_program)) =
       [Print msg_executing_program, Print (msg_show_undefined ''x''),
        Print msg_execution_complete]
   \<and> fst (run_file ''p.zcli'' failing_file) = 0
   \<and> variables (snd (run_file ''p.zcli'' failing_file)) ''y'' = Some ''1''
   \<and> stdout (snd (run_file ''p.zcli'' failing_file)) =
       [Print (msg_executing_file ''p.zcli''), Print (msg_executing_from ''p.zcli''),
        Print (msg_show_undefined ''x''), Print (msg_finished ''p.zcli'')]"
  by code_simp

subsection \<open>The \<^verbatim>\<open>execute\<close> command\<close>

lemma replay_step_Continue: "replay_step (Continue s) l = parse_and_execute_line True l s"
  by (simp add: replay_step_def)

lemma replay_step_Exit: "replay_step (Exit code t) l = Exit code t"
  by (simp add: replay_step_def)

lemma foldl_replay_step_Exit: "foldl replay_step (Exit code t) ls = Exit code t"
  by (induction ls) (simp_all add: replay_step_Exit)

lemma run_program_lines_foldl:
  "run_program_lines ls s = foldl replay_step (Continue s) ls"
proof (induction ls arbitrary: s)
  case Nil
  then show ?case by simp
next
  case (Cons l ls)
  show ?case
  proof (cases "parse_and_execute_line True l s")
    case (Continue t)
    then show ?thesis using Cons.IH [of t] by (simp add: parse_runtime replay_step_Continue)
  next
    case (Exit code t)
    then show ?thesis by (simp add: parse_runtime replay_step_Continue foldl_replay_step_Exit)
  qed
qed

lemma mode_not_Compiler: "mode s \<noteq> Compiler \<longleftrightarrow> mode s = Interpreter"
  by (cases "mode s") simp_all

text \<open>
  Claim C5, amended. A typed line whose command is \<^verbatim>\<open>execute\<close>, in compiler mode with
  a buffer that is not empty: the mode is set to \<^verbatim>\<open>interpreter\<close> and the lines of the
  buffer are executed from the first to the last, each once, by
  \<^verbatim>\<open>_parse_and_execute_line\<close> with \<^verbatim>\<open>is_runtime_execution=True\<close>; when the replay
  returns, the mode is \<^verbatim>\<open>compiler\<close> again. With an empty buffer only a message is
  printed. In interpreter mode the command prints an error and changes nothing but the
  session history, to which the typed line is appended as every typed line is: the
  variables, the buffer, the mode, the input slot and the files stay as they are.
\<close>

theorem execute_replays_buffer:
  assumes "command_of line = Some ''execute''"
  shows "(mode s = Compiler \<and> program_lines s \<noteq> [] \<longrightarrow>
            parse_and_execute_line False line s =
              (case foldl replay_step
                      (Continue (s\<lparr>session_history := session_history s @ [line],
                                   stdout := stdout s @ hex_warning_of line @
                                             [Print msg_executing_program],
                                   mode := Interpreter\<rparr>))
                      (program_lines s) of
                 Exit code t \<Rightarrow> Exit code t
               | Continue t \<Rightarrow> Continue (print msg_execution_complete (t\<lparr>mode := Compiler\<rparr>))))
    \<and> (mode s = Compiler \<and> program_lines s = [] \<longrightarrow>
            parse_and_execute_line False line s =
              Continue (s\<lparr>session_history := session_history s @ [line],
                         stdout := stdout s @ hex_warning_of line @ [Print msg_no_program_lines]\<rparr>))
    \<and> (mode s = Interpreter \<longrightarrow>
            parse_and_execute_line False line s =
              Continue (s\<lparr>session_history := session_history s @ [line],
                         stdout := stdout s @ hex_warning_of line @
                                   [Print msg_execute_only_compiler]\<rparr>))"
proof -
  have c: "lower (parts_of line ! 0) = ''execute''" using assms by (rule command_ofD)
  have "parse_and_execute_line False line s =
      exec_execute run_program_lines False (color_warned line (record_history False line s))"
    unfolding parse_and_execute_line_def parse_command [OF assms]
    by (simp add: exec_command_def c)
  then show ?thesis
    by (auto simp: exec_execute_def Let_def color_warned_eq record_history_def print_def
        run_program_lines_foldl mode_not_Compiler [symmetric] split: outcome.splits)
qed

theorem execute_replays_buffer_witness:
  "command_of ''execute'' = Some ''execute''
   \<and> mode save_example = Compiler \<and> program_lines save_example \<noteq> []
   \<and> parse_and_execute_line False ''execute'' save_example =
       (case foldl replay_step
               (Continue (save_example\<lparr>session_history := session_history save_example @ [''execute''],
                  stdout := stdout save_example @ [Print msg_executing_program],
                  mode := Interpreter\<rparr>))
               (program_lines save_example) of
          Exit code t \<Rightarrow> Exit code t
        | Continue t \<Rightarrow> Continue (print msg_execution_complete (t\<lparr>mode := Compiler\<rparr>)))
   \<and> mode (final_state (parse_and_execute_line False ''execute'' save_example)) = Compiler
   \<and> variables (final_state (parse_and_execute_line False ''execute'' save_example)) ''y'' = Some ''1''
   \<and> stdout (final_state (parse_and_execute_line False ''execute'' save_example)) =
       [Print msg_executing_program, Print (''1'' @ ANSI_RESET), Print msg_execution_complete]
   \<and> mode (save_example\<lparr>mode := Interpreter\<rparr>) = Interpreter
   \<and> parse_and_execute_line False ''execute'' (save_example\<lparr>mode := Interpreter\<rparr>) =
       Continue (save_example\<lparr>mode := Interpreter,
          session_history := session_history save_example @ [''execute''],
          stdout := stdout save_example @ [Print msg_execute_only_compiler]\<rparr>)"
proof -
  have h: "command_of ''execute'' = Some ''execute''" by code_simp
  have x: "hex_warning_of ''execute'' = []" by code_simp
  have m: "mode save_example = Compiler" and p: "program_lines save_example \<noteq> []"
    by (simp_all add: save_example_def init_def)
  have o: "mode (final_state (parse_and_execute_line False ''execute'' save_example)) = Compiler
   \<and> variables (final_state (parse_and_execute_line False ''execute'' save_example)) ''y'' = Some ''1''
   \<and> stdout (final_state (parse_and_execute_line False ''execute'' save_example)) =
       [Print msg_executing_program, Print (''1'' @ ANSI_RESET), Print msg_execution_complete]"
    by code_simp
  show ?thesis
    using execute_replays_buffer [OF h, of save_example]
      execute_replays_buffer [OF h, of "save_example\<lparr>mode := Interpreter\<rparr>"] h m p o
    by (simp add: x)
qed

text \<open>
  The claim as stated says that \<^verbatim>\<open>execute\<close> in interpreter mode changes nothing. The
  typed line is in the session history afterwards.
\<close>

theorem execute_in_immediate_mode_is_recorded:
  "mode (save_example\<lparr>mode := Interpreter\<rparr>) = Interpreter
   \<and> session_history (save_example\<lparr>mode := Interpreter\<rparr>) = [''comp'']
   \<and> session_history (final_state (parse_and_execute_line False ''execute''
         (save_example\<lparr>mode := Interpreter\<rparr>))) = [''comp'', ''execute'']
   \<and> session_history (repl_state (repl_step ''execute''
         (save_example\<lparr>mode := Interpreter\<rparr>))) = [''comp'', ''execute'']"
  by code_simp

subsection \<open>The loops of \<^verbatim>\<open>define\<close> and \<^verbatim>\<open>show\<close>\<close>

text \<open>
  Each loop resolves the parts that are not empty one after the other and returns at the
  first that fails; the dispatcher on a \<^verbatim>\<open>define\<close> line and on a \<^verbatim>\<open>show\<close> line.
\<close>

lemma define_loop_resolve:
  "define_loop s ps acc =
     (case resolve_all (define_operand s) (filter (\<lambda>p. p \<noteq> []) ps) of
        Inl f \<Rightarrow> Inl f
      | Inr vs \<Rightarrow> Inr (acc @ vs))"
  by (induction ps arbitrary: acc)
     (auto simp: define_operand_def split: sum.splits option.splits)

lemma show_loop_resolve:
  "show_loop s ps acc =
     (case resolve_all (show_operand s) (filter (\<lambda>p. p \<noteq> []) ps) of
        Inl f \<Rightarrow> Inl f
      | Inr vs \<Rightarrow> Inr (acc @ vs))"
  by (induction ps arbitrary: acc)
     (auto simp: show_operand_def split: sum.splits option.splits)

lemma define_operand_cong:
  "variables t = variables s \<Longrightarrow> last_input_value t = last_input_value s \<Longrightarrow>
     define_operand t = define_operand s"
  by (rule ext) (simp add: define_operand_def)

lemma show_operand_cong:
  "variables t = variables s \<Longrightarrow> show_operand t = show_operand s"
  by (rule ext) (simp add: show_operand_def)

lemma resolve_all_append:
  "resolve_all r (ps @ qs) =
     (case resolve_all r ps of
        Inl e \<Rightarrow> Inl e
      | Inr vs \<Rightarrow> (case resolve_all r qs of Inl e \<Rightarrow> Inl e | Inr ws \<Rightarrow> Inr (vs @ ws)))"
  by (induction ps) (auto split: sum.splits)

lemma entered_fields:
  "variables (color_warned line (record_history rt line s)) = variables s"
  "last_input_value (color_warned line (record_history rt line s)) = last_input_value s"
  "stdout (color_warned line (record_history rt line s)) = stdout s @ hex_warning_of line"
  by (simp_all add: color_warned_eq record_history_def)

lemma parse_define:
  assumes "command_of line = Some ''define''" and "length (parts_of line) = 3"
  shows "parse_and_execute_line rt line s =
    (case resolve_all (define_operand s)
            (filter (\<lambda>p. p \<noteq> []) (concatenation_parts (define_argument line))) of
       Inl (kind, msg) \<Rightarrow> Continue (print msg (color_warned line (record_history rt line s)))
     | Inr vs \<Rightarrow>
         Continue ((if rt then (\<lambda>t. t) else print (msg_defined (parts_of line ! 1) (concat vs)))
           ((color_warned line (record_history rt line s))
              \<lparr>variables := (variables s)(parts_of line ! 1 \<mapsto> concat vs)\<rparr>)))"
proof -
  have c: "lower (parts_of line ! 0) = ''define''" using assms(1) by (rule command_ofD)
  have op: "define_operand (color_warned line (record_history rt line s)) = define_operand s"
    by (rule define_operand_cong) (simp_all add: entered_fields)
  show ?thesis
    unfolding parse_and_execute_line_def parse_command [OF assms(1)]
    by (simp add: exec_command_def c exec_define_def assms(2) define_loop_resolve op
        define_argument_def entered_fields Let_def split: sum.splits)
qed

lemma parse_show:
  assumes "command_of line = Some ''show''" and "2 \<le> length (parts_of line)"
    and "lower (parts_of line ! 1) \<noteq> ''input''" and "lower (parts_of line ! 1) \<noteq> ''((input))''"
  shows "parse_and_execute_line rt line s =
    (case resolve_all (show_operand s)
            (filter (\<lambda>p. p \<noteq> []) (concatenation_parts (show_argument line))) of
       Inl (kind, msg) \<Rightarrow> Continue (print msg (color_warned line (record_history rt line s)))
     | Inr vs \<Rightarrow>
         Continue (print (color_code_of line @ concat vs @ ANSI_RESET)
                     (color_warned line (record_history rt line s))))"
proof -
  have c: "lower (parts_of line ! 0) = ''show''" using assms(1) by (rule command_ofD)
  have op: "show_operand (color_warned line (record_history rt line s)) = show_operand s"
    by (rule show_operand_cong) (simp_all add: entered_fields)
  have l: "\<not> length (parts_of line) < 2" using assms(2) by simp
  have "exec_show rt (color_code_of line) (processed_line_of line) (parts_of line)
          (color_warned line (record_history rt line s)) =
        (case resolve_all (show_operand s)
            (filter (\<lambda>p. p \<noteq> []) (concatenation_parts (show_argument line))) of
           Inl f \<Rightarrow> Inl f
         | Inr vs \<Rightarrow> Inr (Continue (print (color_code_of line @ concat vs @ ANSI_RESET)
                     (color_warned line (record_history rt line s)))))"
    using l assms(3,4)
    by (simp add: exec_show_def show_loop_resolve op show_argument_def show_print_def Let_def
        split: sum.splits)
  then show ?thesis
    unfolding parse_and_execute_line_def parse_command [OF assms(1)]
    by (simp add: exec_command_def c split: sum.splits)
qed


subsection \<open>A chain that fails\<close>

lemma print_entered:
  "print msg (color_warned line (record_history rt line s)) =
     (record_history rt line s)\<lparr>stdout := stdout s @ hex_warning_of line @ [Print msg]\<rparr>"
  by (simp add: print_def color_warned_eq record_history_def)

lemma resolve_all_first_failure:
  assumes "resolve_all r ps = Inr vs" and "r p = Inl e"
  shows "resolve_all r (ps @ p # qs) = Inl e"
  using assms by (simp add: resolve_all_append)

lemma show_undefined_x:
  assumes "variables s ''x'' = None"
  shows "parse_and_execute_line rt ''show (x)'' s =
           Continue ((record_history rt ''show (x)'' s)
             \<lparr>stdout := stdout s @ [Print (msg_show_undefined ''x'')]\<rparr>)"
proof -
  have c: "command_of ''show (x)'' = Some ''show''" by code_simp
  have p: "parts_of ''show (x)'' = [''show'', ''(x)'']" by code_simp
  have l: "lower ''(x)'' = ''(x)''" by code_simp
  have a: "concatenation_parts (show_argument ''show (x)'') = [''(x)'']" by code_simp
  have h: "hex_warning_of ''show (x)'' = []" by code_simp
  have w: "\<not> wrapped ''(x)'' [CHR 0x22] [CHR 0x22]" "wrapped ''(x)'' ''('' '')''"
    "var_name_in_paren ''(x)'' = ''x''" by code_simp+
  have o: "show_operand s ''(x)'' = Inl (UndefinedVariableError, msg_show_undefined ''x'')"
    using assms by (simp add: show_operand_def w)
  show ?thesis
    by (simp add: parse_show [OF c] p l a o print_entered h)
qed

text \<open>
  Claim C3. A \<^verbatim>\<open>define\<close> or a \<^verbatim>\<open>show\<close> whose chain of parts (the empty ones
  discarded) has a first part \<open>p\<close> that fails to resolve, the parts \<open>ps\<close> before it
  resolving, fails with the error of \<open>p\<close> whatever the parts \<open>qs\<close> after it are. The
  command then only prints the text of that error (after the warning of a hex colour tag,
  if the line has one): the variables are as before, nothing is stored for the name of
  the \<^verbatim>\<open>define\<close>, and no line of a \<^verbatim>\<open>show\<close> is printed. In particular
  \<^verbatim>\<open>show (x)\<close> for an undefined \<^verbatim>\<open>x\<close> is an undefined variable error and leaves the
  variables unchanged.
\<close>

theorem failing_chain_has_no_effect:
  "(command_of line = Some ''define'' \<and> length (parts_of line) = 3 \<and>
      filter (\<lambda>p. p \<noteq> []) (concatenation_parts (define_argument line)) = ps @ p # qs \<and>
      resolve_all (define_operand s) ps = Inr vs \<and> define_operand s p = Inl (kind, msg)
    \<longrightarrow> parse_and_execute_line rt line s =
          Continue ((record_history rt line s)
            \<lparr>stdout := stdout s @ hex_warning_of line @ [Print msg]\<rparr>))
   \<and> (command_of line = Some ''show'' \<and> 2 \<le> length (parts_of line) \<and>
      lower (parts_of line ! 1) \<noteq> ''input'' \<and> lower (parts_of line ! 1) \<noteq> ''((input))'' \<and>
      filter (\<lambda>p. p \<noteq> []) (concatenation_parts (show_argument line)) = ps @ p # qs \<and>
      resolve_all (show_operand s) ps = Inr vs \<and> show_operand s p = Inl (kind, msg)
    \<longrightarrow> parse_and_execute_line rt line s =
          Continue ((record_history rt line s)
            \<lparr>stdout := stdout s @ hex_warning_of line @ [Print msg]\<rparr>))
   \<and> (variables s ''x'' = None
    \<longrightarrow> show_operand s ''(x)'' = Inl (UndefinedVariableError, msg_show_undefined ''x'') \<and>
        parse_and_execute_line rt ''show (x)'' s =
          Continue ((record_history rt ''show (x)'' s)
            \<lparr>stdout := stdout s @ [Print (msg_show_undefined ''x'')]\<rparr>) \<and>
        variables (final_state (parse_and_execute_line rt ''show (x)'' s)) = variables s)"
proof (intro conjI impI)
  assume a: "command_of line = Some ''define'' \<and> length (parts_of line) = 3 \<and>
      filter (\<lambda>p. p \<noteq> []) (concatenation_parts (define_argument line)) = ps @ p # qs \<and>
      resolve_all (define_operand s) ps = Inr vs \<and> define_operand s p = Inl (kind, msg)"
  then have "resolve_all (define_operand s)
      (filter (\<lambda>p. p \<noteq> []) (concatenation_parts (define_argument line))) = Inl (kind, msg)"
    by (simp add: resolve_all_first_failure)
  with a show "parse_and_execute_line rt line s =
          Continue ((record_history rt line s)
            \<lparr>stdout := stdout s @ hex_warning_of line @ [Print msg]\<rparr>)"
    by (simp add: parse_define print_entered)
next
  assume a: "command_of line = Some ''show'' \<and> 2 \<le> length (parts_of line) \<and>
      lower (parts_of line ! 1) \<noteq> ''input'' \<and> lower (parts_of line ! 1) \<noteq> ''((input))'' \<and>
      filter (\<lambda>p. p \<noteq> []) (concatenation_parts (show_argument line)) = ps @ p # qs \<and>
      resolve_all (show_operand s) ps = Inr vs \<and> show_operand s p = Inl (kind, msg)"
  then have "resolve_all (show_operand s)
      (filter (\<lambda>p. p \<noteq> []) (concatenation_parts (show_argument line))) = Inl (kind, msg)"
    by (simp add: resolve_all_first_failure)
  with a show "parse_and_execute_line rt line s =
          Continue ((record_history rt line s)
            \<lparr>stdout := stdout s @ hex_warning_of line @ [Print msg]\<rparr>)"
    by (simp add: parse_show print_entered)
next
  assume x: "variables s ''x'' = None"
  have w: "\<not> wrapped ''(x)'' [CHR 0x22] [CHR 0x22]" "wrapped ''(x)'' ''('' '')''"
    "var_name_in_paren ''(x)'' = ''x''" by code_simp+
  show "show_operand s ''(x)'' = Inl (UndefinedVariableError, msg_show_undefined ''x'')"
    using x by (simp add: show_operand_def w)
  show "parse_and_execute_line rt ''show (x)'' s =
          Continue ((record_history rt ''show (x)'' s)
            \<lparr>stdout := stdout s @ [Print (msg_show_undefined ''x'')]\<rparr>)"
    using x by (rule show_undefined_x)
  then show "variables (final_state (parse_and_execute_line rt ''show (x)'' s)) = variables s"
    by (simp add: final_state_def record_history_def)
qed

theorem failing_chain_has_no_effect_witness:
  "(command_of ''define a \"x\" : (b)'' = Some ''define''
      \<and> length (parts_of ''define a \"x\" : (b)'') = 3
      \<and> filter (\<lambda>p. p \<noteq> []) (concatenation_parts (define_argument ''define a \"x\" : (b)'')) =
          [''\"x\"''] @ ''(b)'' # []
      \<and> resolve_all (define_operand (init [])) [''\"x\"''] = Inr [''x'']
      \<and> define_operand (init []) ''(b)'' = Inl (UndefinedVariableError, msg_define_undefined ''b''))
   \<and> parse_and_execute_line False ''define a \"x\" : (b)'' (init []) =
       Continue ((record_history False ''define a \"x\" : (b)'' (init []))
         \<lparr>stdout := stdout (init []) @ hex_warning_of ''define a \"x\" : (b)'' @
                     [Print (msg_define_undefined ''b'')]\<rparr>)
   \<and> (command_of ''show \"a\" : (x) : \"b\"'' = Some ''show''
      \<and> 2 \<le> length (parts_of ''show \"a\" : (x) : \"b\"'')
      \<and> lower (parts_of ''show \"a\" : (x) : \"b\"'' ! 1) \<noteq> ''input''
      \<and> lower (parts_of ''show \"a\" : (x) : \"b\"'' ! 1) \<noteq> ''((input))''
      \<and> filter (\<lambda>p. p \<noteq> []) (concatenation_parts (show_argument ''show \"a\" : (x) : \"b\"'')) =
          [''\"a\"''] @ ''(x)'' # [''\"b\"'']
      \<and> resolve_all (show_operand (init [])) [''\"a\"''] = Inr [''a'']
      \<and> show_operand (init []) ''(x)'' = Inl (UndefinedVariableError, msg_show_undefined ''x''))
   \<and> parse_and_execute_line True ''show \"a\" : (x) : \"b\"'' (init []) =
       Continue ((record_history True ''show \"a\" : (x) : \"b\"'' (init []))
         \<lparr>stdout := stdout (init []) @ hex_warning_of ''show \"a\" : (x) : \"b\"'' @
                     [Print (msg_show_undefined ''x'')]\<rparr>)
   \<and> variables (init []) ''x'' = None
   \<and> parse_and_execute_line True ''show (x)'' (init []) =
       Continue ((record_history True ''show (x)'' (init []))
         \<lparr>stdout := stdout (init []) @ [Print (msg_show_undefined ''x'')]\<rparr>)"
proof -
  have d: "command_of ''define a \"x\" : (b)'' = Some ''define''
      \<and> length (parts_of ''define a \"x\" : (b)'') = 3
      \<and> filter (\<lambda>p. p \<noteq> []) (concatenation_parts (define_argument ''define a \"x\" : (b)'')) =
          [''\"x\"''] @ ''(b)'' # []
      \<and> resolve_all (define_operand (init [])) [''\"x\"''] = Inr [''x'']
      \<and> define_operand (init []) ''(b)'' = Inl (UndefinedVariableError, msg_define_undefined ''b'')"
    by code_simp
  have s: "command_of ''show \"a\" : (x) : \"b\"'' = Some ''show''
      \<and> 2 \<le> length (parts_of ''show \"a\" : (x) : \"b\"'')
      \<and> lower (parts_of ''show \"a\" : (x) : \"b\"'' ! 1) \<noteq> ''input''
      \<and> lower (parts_of ''show \"a\" : (x) : \"b\"'' ! 1) \<noteq> ''((input))''
      \<and> filter (\<lambda>p. p \<noteq> []) (concatenation_parts (show_argument ''show \"a\" : (x) : \"b\"'')) =
          [''\"a\"''] @ ''(x)'' # [''\"b\"'']
      \<and> resolve_all (show_operand (init [])) [''\"a\"''] = Inr [''a'']
      \<and> show_operand (init []) ''(x)'' = Inl (UndefinedVariableError, msg_show_undefined ''x'')"
    by code_simp
  have x: "variables (init []) ''x'' = None" by (simp add: init_def)
  note t1 = failing_chain_has_no_effect [where line = "''define a \"x\" : (b)''"
      and ps = "[''\"x\"'']" and p = "''(b)''" and qs = "[]" and s = "init []" and vs = "[''x'']"
      and kind = UndefinedVariableError and msg = "msg_define_undefined ''b''" and rt = False,
      THEN conjunct1, rule_format, OF d]
  note t2 = failing_chain_has_no_effect [where line = "''show \"a\" : (x) : \"b\"''"
      and ps = "[''\"a\"'']" and p = "''(x)''" and qs = "[''\"b\"'']" and s = "init []"
      and vs = "[''a'']" and kind = UndefinedVariableError and msg = "msg_show_undefined ''x''"
      and rt = True, THEN conjunct2, THEN conjunct1, rule_format, OF s]
  note t3 = failing_chain_has_no_effect [where s = "init []" and rt = True,
      THEN conjunct2, THEN conjunct2, rule_format, OF x, THEN conjunct2, THEN conjunct1]
  show ?thesis using d s x t1 t2 t3 by (intro conjI) (rule t1 t2 t3 | simp)+
qed

subsection \<open>The input placeholder in a \<^verbatim>\<open>show\<close> chain\<close>




subsection \<open>The input placeholder\<close>














subsection \<open>Concatenation\<close>

text \<open>
  The split of the source, a scan for the pattern \<^verbatim>\<open>\s*:\s*\<close>, gives the same parts as
  the split at every colon once the parts are stripped; and the loops agree with the
  resolution rules of the specification.
\<close>

lemma isspace_not_colon: "isspace c \<Longrightarrow> c \<noteq> CHR '':''"
  by (auto simp: isspace_def)

lemma strip_leading_spaces:
  assumes "\<forall>c \<in> set ws. isspace c"
  shows "strip (ws @ x) = strip x"
proof -
  have "dropWhile isspace (ws @ x) = dropWhile isspace x"
    by (rule dropWhile_append2) (use assms in auto)
  then show ?thesis by (simp add: strip_def)
qed

lemma strip_trailing_spaces:
  assumes "\<forall>c \<in> set ws. isspace c"
  shows "strip (x @ ws) = strip x"
proof (cases "\<forall>c \<in> set x. isspace c")
  case True
  then have a: "dropWhile isspace (x @ ws) = []" and b: "dropWhile isspace x = []"
    using assms by (auto simp: dropWhile_eq_Nil_conv)
  show ?thesis unfolding strip_def a b by simp
next
  case False
  then obtain c where "c \<in> set x" "\<not> isspace c" by blast
  then have "dropWhile isspace (x @ ws) = dropWhile isspace x @ ws"
    by (rule dropWhile_append1)
  moreover have "dropWhile isspace (rev ws @ rev (dropWhile isspace x)) =
      dropWhile isspace (rev (dropWhile isspace x))"
    by (rule dropWhile_append2) (use assms in auto)
  ultimately show ?thesis by (simp add: strip_def)
qed

lemma split_colon_not_Nil: "split_colon acc x \<noteq> []"
  by (induction x arbitrary: acc) auto

lemma split_colon_acc:
  "split_colon acc x = (acc @ hd (split_colon [] x)) # tl (split_colon [] x)"
proof (induction x arbitrary: acc)
  case Nil
  then show ?case by simp
next
  case (Cons c cs)
  show ?case
  proof (cases "c = CHR '':''")
    case True
    then show ?thesis by simp
  next
    case False
    have "split_colon acc (c # cs) = split_colon (acc @ [c]) cs" using False by simp
    also have "\<dots> = ((acc @ [c]) @ hd (split_colon [] cs)) # tl (split_colon [] cs)"
      by (rule Cons.IH)
    also have "split_colon [] (c # cs) = split_colon [c] cs" using False by simp
    then have "((acc @ [c]) @ hd (split_colon [] cs)) # tl (split_colon [] cs) =
        (acc @ hd (split_colon [] (c # cs))) # tl (split_colon [] (c # cs))"
      using Cons.IH [of "[c]"] by simp
    finally show ?thesis .
  qed
qed

lemma split_colon_spaces:
  assumes "\<forall>c \<in> set ws. isspace c"
  shows "split_colon acc (ws @ x) = split_colon (acc @ ws) x"
  using assms by (induction ws arbitrary: acc) (auto dest: isspace_not_colon)

lemma map_strip_split_colon_spaces:
  assumes "\<forall>c \<in> set ws. isspace c"
  shows "map strip (split_colon [] (ws @ x)) = map strip (split_colon [] x)"
proof -
  have "split_colon [] (ws @ x) = (ws @ hd (split_colon [] x)) # tl (split_colon [] x)"
    using split_colon_spaces [OF assms, of "[]" x] split_colon_acc [of ws x] by simp
  moreover have "split_colon [] x = hd (split_colon [] x) # tl (split_colon [] x)"
    using split_colon_not_Nil [of "[]" x] by simp
  ultimately show ?thesis
    using strip_leading_spaces [OF assms]
    by (metis list.simps(9))
qed

lemma re_split_colon_is_split_colon:
  "map strip (re_split_colon acc s) = map strip (split_colon acc s)"
proof (induction acc s rule: re_split_colon.induct)
  case (1 piece)
  then show ?case by simp
next
  case (2 piece c cs)
  define r where "r = dropWhile isspace (c # cs)"
  define ws where "ws = takeWhile isspace (c # cs)"
  have ws: "\<forall>c \<in> set ws. isspace c" by (auto simp: ws_def dest: set_takeWhileD)
  have line: "c # cs = ws @ r" by (simp add: ws_def r_def)
  show ?case
  proof (cases "r \<noteq> [] \<and> hd r = CHR '':''")
    case True
    then obtain r' where r': "r = CHR '':'' # r'" by (cases r) auto
    define ws' where "ws' = takeWhile isspace r'"
    have ws': "\<forall>c \<in> set ws'. isspace c" by (auto simp: ws'_def dest: set_takeWhileD)
    have rest: "r' = ws' @ dropWhile isspace r'" by (simp add: ws'_def)
    have "re_split_colon piece (c # cs) = piece # re_split_colon [] (dropWhile isspace (tl r))"
      by (subst re_split_colon.simps(2)) (simp only: r_def [symmetric] Let_def if_P [OF True])
    then have "re_split_colon piece (c # cs) = piece # re_split_colon [] (dropWhile isspace r')"
      by (simp add: r')
    moreover have "map strip (re_split_colon [] (dropWhile isspace (tl r))) =
        map strip (split_colon [] (dropWhile isspace (tl r)))"
      using "2.IH"(1) [OF r_def True] .
    moreover have "split_colon piece (c # cs) = (piece @ ws) # split_colon [] r'"
      unfolding line r' using split_colon_spaces [OF ws, of piece "CHR '':'' # r'"] by simp
    moreover have "map strip (split_colon [] r') = map strip (split_colon [] (dropWhile isspace r'))"
      using map_strip_split_colon_spaces [OF ws', of "dropWhile isspace r'"] rest by simp
    ultimately show ?thesis
      using strip_trailing_spaces [OF ws, of piece] r' by simp
  next
    case False
    have c: "c \<noteq> CHR '':''"
    proof
      assume "c = CHR '':''"
      then have "r = c # cs" by (simp add: r_def isspace_def)
      with False \<open>c = CHR '':''\<close> show False by simp
    qed
    have "re_split_colon piece (c # cs) = re_split_colon (piece @ [c]) cs"
      by (subst re_split_colon.simps(2)) (simp only: r_def [symmetric] Let_def if_not_P [OF False])
    moreover have "split_colon piece (c # cs) = split_colon (piece @ [c]) cs" using c by simp
    ultimately show ?thesis using "2.IH"(2) [OF r_def False] by simp
  qed
qed

lemma concatenation_parts_spec:
  "filter (\<lambda>p. p \<noteq> []) (concatenation_parts argument) = spec_segments argument"
  by (simp add: concatenation_parts_def spec_segments_def re_split_colon_is_split_colon)

lemma startswith_char: "startswith p [l] \<longleftrightarrow> p \<noteq> [] \<and> hd p = l"
  by (cases p) (simp_all add: startswith_def)

lemma endswith_char: "endswith p [r] \<longleftrightarrow> p \<noteq> [] \<and> last p = r"
  by (cases p rule: rev_cases) (simp_all add: endswith_def)

lemma wrapped_char: "wrapped p [l] [r] \<longleftrightarrow> p \<noteq> [] \<and> hd p = l \<and> last p = r"
  by (auto simp: wrapped_def startswith_char endswith_char)

lemma slice_contents: "slice_1_m1 p = contents p"
  by (simp add: slice_1_m1_def contents_def butlast_conv_take tl_take drop_Suc)

lemma wrapped_paren: "wrapped p ''('' '')'' \<longleftrightarrow> delimited CHR ''('' CHR '')'' p"
proof (cases p)
  case Nil
  then show ?thesis by (simp add: wrapped_char delimited_def)
next
  case (Cons a q)
  then show ?thesis by (cases q) (auto simp: wrapped_char delimited_def)
qed

lemma wrapped_quote:
  "wrapped p [CHR 0x22] [CHR 0x22] \<longleftrightarrow> delimited (CHR 0x22) (CHR 0x22) p \<or> p = [CHR 0x22]"
proof (cases p)
  case Nil
  then show ?thesis by (simp add: wrapped_char delimited_def)
next
  case (Cons a q)
  then show ?thesis by (cases q) (auto simp: wrapped_char delimited_def)
qed

lemma var_name_in_paren_spec:
  "var_name_in_paren p =
     (if delimited CHR ''('' CHR '')'' (contents p) then contents (contents p) else contents p)"
  by (simp add: var_name_in_paren_def slice_contents wrapped_paren Let_def)

lemma spec_reference_regular:
  assumes "\<not> irregular p"
  shows "spec_reference p =
     (if wrapped p ''('' '')'' then Some (var_name_in_paren p) else None)"
  using assms
  by (auto simp: spec_reference_def irregular_def wrapped_paren var_name_in_paren_spec)

lemma define_operand_spec:
  assumes "\<not> irregular p"
  shows "map_sum fst (\<lambda>v. v) (define_operand s p) = spec_resolve True s p"
proof -
  have q: "wrapped p [CHR 0x22] [CHR 0x22] \<longleftrightarrow> delimited (CHR 0x22) (CHR 0x22) p"
    using assms by (auto simp: wrapped_quote irregular_def)
  show ?thesis
    by (simp add: define_operand_def spec_resolve_def q slice_contents
        spec_reference_regular [OF assms] split: option.splits)
qed

lemma show_operand_spec:
  assumes "\<not> irregular p"
  shows "map_sum fst (\<lambda>v. v) (show_operand s p) = spec_resolve False s p"
proof -
  have q: "wrapped p [CHR 0x22] [CHR 0x22] \<longleftrightarrow> delimited (CHR 0x22) (CHR 0x22) p"
    using assms by (auto simp: wrapped_quote irregular_def)
  show ?thesis
    by (simp add: show_operand_def spec_resolve_def q slice_contents
        spec_reference_regular [OF assms] split: option.splits)
qed

lemma resolve_all_map_sum:
  assumes "\<And>p. p \<in> set ps \<Longrightarrow> map_sum f (\<lambda>v. v) (r p) = r' p"
  shows "map_sum f (\<lambda>v. v) (resolve_all r ps) = resolve_all r' ps"
  using assms
proof (induction ps)
  case Nil
  then show ?case by simp
next
  case (Cons p ps)
  have h: "map_sum f (\<lambda>v. v) (r p) = r' p" using Cons.prems by simp
  have t: "map_sum f (\<lambda>v. v) (resolve_all r ps) = resolve_all r' ps"
    using Cons by simp
  show ?case
    using h t by (cases "r p"; cases "resolve_all r ps") (auto split: sum.splits)
qed

lemma spec_concatenation_define:
  assumes "\<forall>p \<in> set (spec_segments argument). \<not> irregular p"
  shows "spec_concatenation True s argument =
     (case resolve_all (define_operand s)
             (filter (\<lambda>p. p \<noteq> []) (concatenation_parts argument)) of
        Inl (kind, msg) \<Rightarrow> Inl kind
      | Inr vs \<Rightarrow> Inr (concat vs))"
proof -
  have "map_sum fst (\<lambda>v. v) (resolve_all (define_operand s) (spec_segments argument)) =
      resolve_all (spec_resolve True s) (spec_segments argument)"
    by (rule resolve_all_map_sum) (use assms define_operand_spec in auto)
  then have e: "resolve_all (spec_resolve True s) (spec_segments argument) =
      map_sum fst (\<lambda>v. v) (resolve_all (define_operand s) (spec_segments argument))"
    by simp
  show ?thesis
    unfolding spec_concatenation_def concatenation_parts_spec e
    by (cases "resolve_all (define_operand s) (spec_segments argument)") auto
qed

lemma spec_concatenation_show:
  assumes "\<forall>p \<in> set (spec_segments argument). \<not> irregular p"
  shows "spec_concatenation False s argument =
     (case resolve_all (show_operand s)
             (filter (\<lambda>p. p \<noteq> []) (concatenation_parts argument)) of
        Inl (kind, msg) \<Rightarrow> Inl kind
      | Inr vs \<Rightarrow> Inr (concat vs))"
proof -
  have "map_sum fst (\<lambda>v. v) (resolve_all (show_operand s) (spec_segments argument)) =
      resolve_all (spec_resolve False s) (spec_segments argument)"
    by (rule resolve_all_map_sum) (use assms show_operand_spec in auto)
  then have e: "resolve_all (spec_resolve False s) (spec_segments argument) =
      map_sum fst (\<lambda>v. v) (resolve_all (show_operand s) (spec_segments argument))"
    by simp
  show ?thesis
    unfolding spec_concatenation_def concatenation_parts_spec e
    by (cases "resolve_all (show_operand s) (spec_segments argument)") auto
qed

lemma define_full_name:
  assumes "variables s ''first'' = Some ''Jane''" and "variables s ''last'' = Some ''Doe''"
  shows "parse_and_execute_line rt ''define full (first) : \" \" : (last)'' s =
    Continue ((if rt then (\<lambda>t. t) else print (msg_defined ''full'' ''Jane Doe''))
      ((record_history rt ''define full (first) : \" \" : (last)'' s)
         \<lparr>variables := (variables s)(''full'' \<mapsto> ''Jane Doe'')\<rparr>))"
proof -
  define line where "line = ''define full (first) : \" \" : (last)''"
  have c: "command_of line = Some ''define''"
    and p: "parts_of line = [''define'', ''full'', ''(first) : \" \" : (last)'']"
    and a: "filter (\<lambda>p. p \<noteq> []) (concatenation_parts (define_argument line)) =
              [''(first)'', ''\" \"'', ''(last)'']"
    and h: "hex_warning_of line = []"
    unfolding line_def by code_simp+
  have w: "\<not> wrapped ''(first)'' [CHR 0x22] [CHR 0x22]" "lower ''(first)'' \<noteq> ''((input))''"
    "wrapped ''(first)'' ''('' '')''" "var_name_in_paren ''(first)'' = ''first''"
    "\<not> wrapped ''(last)'' [CHR 0x22] [CHR 0x22]" "lower ''(last)'' \<noteq> ''((input))''"
    "wrapped ''(last)'' ''('' '')''" "var_name_in_paren ''(last)'' = ''last''"
    "wrapped ''\" \"'' [CHR 0x22] [CHR 0x22]" "slice_1_m1 ''\" \"'' = '' ''"
    by code_simp+
  have r: "resolve_all (define_operand s) [''(first)'', ''\" \"'', ''(last)''] =
      Inr [''Jane'', '' '', ''Doe'']"
    using assms by (simp add: define_operand_def w)
  have l3: "length (parts_of line) = 3" by (simp add: p)
  have "parse_and_execute_line rt line s =
    Continue ((if rt then (\<lambda>t. t) else print (msg_defined ''full'' ''Jane Doe''))
      ((record_history rt line s)\<lparr>variables := (variables s)(''full'' \<mapsto> ''Jane Doe'')\<rparr>))"
    using parse_define [OF c l3, of rt s, unfolded a r sum.case p]
    by (simp add: color_warned_eq h record_history_def)
  then show ?thesis by (simp only: line_def)
qed

text \<open>
  Where the code agrees with the evaluator of section 4.1 of the specification. For a
  \<^verbatim>\<open>define\<close> line of three fields, when the text that line 114 cuts out of the line is the
  third field and no segment of it is a lone double quote or wrapped in three layers of
  parentheses, the command stores what \<open>spec_concatenation\<close> gives for the third field, or
  prints one diagnostic and stores nothing when \<open>spec_concatenation\<close> fails. For a
  \<^verbatim>\<open>show\<close> line whose first argument token is neither \<^verbatim>\<open>input\<close> nor \<^verbatim>\<open>((input))\<close>, and
  under the same condition on the segments, the command prints what \<open>spec_concatenation\<close>
  without the placeholder rule gives, or one diagnostic. The example of the specification
  holds: \<^verbatim>\<open>define full (first) : " " : (last)\<close> stores \<^verbatim>\<open>Jane Doe\<close>.
\<close>

lemma concatenation_agrees_with_spec:
  "(command_of line = Some ''define'' \<and> length (parts_of line) = 3 \<and>
      define_argument line = parts_of line ! 2 \<and>
      (\<forall>p \<in> set (spec_segments (parts_of line ! 2)). \<not> irregular p)
    \<longrightarrow> (spec_concatenation True s (parts_of line ! 2) = Inr w \<longrightarrow>
           parse_and_execute_line rt line s =
             Continue ((if rt then (\<lambda>t. t) else print (msg_defined (parts_of line ! 1) w))
               ((color_warned line (record_history rt line s))
                  \<lparr>variables := (variables s)(parts_of line ! 1 \<mapsto> w)\<rparr>)))
        \<and> (spec_concatenation True s (parts_of line ! 2) = Inl kind \<longrightarrow>
           (\<exists>msg. parse_and_execute_line rt line s =
              Continue (print msg (color_warned line (record_history rt line s))))))
   \<and> (command_of line = Some ''show'' \<and> 2 \<le> length (parts_of line) \<and>
      lower (parts_of line ! 1) \<noteq> ''input'' \<and> lower (parts_of line ! 1) \<noteq> ''((input))'' \<and>
      (\<forall>p \<in> set (spec_segments (show_argument line)). \<not> irregular p)
    \<longrightarrow> (spec_concatenation False s (show_argument line) = Inr w \<longrightarrow>
           parse_and_execute_line rt line s =
             Continue (print (color_code_of line @ w @ ANSI_RESET)
                         (color_warned line (record_history rt line s))))
        \<and> (spec_concatenation False s (show_argument line) = Inl kind \<longrightarrow>
           (\<exists>msg. parse_and_execute_line rt line s =
              Continue (print msg (color_warned line (record_history rt line s))))))
   \<and> (variables s ''first'' = Some ''Jane'' \<and> variables s ''last'' = Some ''Doe''
    \<longrightarrow> parse_and_execute_line rt ''define full (first) : \" \" : (last)'' s =
          Continue ((if rt then (\<lambda>t. t) else print (msg_defined ''full'' ''Jane Doe''))
            ((record_history rt ''define full (first) : \" \" : (last)'' s)
               \<lparr>variables := (variables s)(''full'' \<mapsto> ''Jane Doe'')\<rparr>)))"
proof (intro conjI impI)
  assume a: "command_of line = Some ''define'' \<and> length (parts_of line) = 3 \<and>
      define_argument line = parts_of line ! 2 \<and>
      (\<forall>p \<in> set (spec_segments (parts_of line ! 2)). \<not> irregular p)"
  then have r: "\<forall>p \<in> set (spec_segments (define_argument line)). \<not> irregular p"
    by simp
  note p = parse_define [of line rt s] spec_concatenation_define [OF r, of s]
  {
    assume "spec_concatenation True s (parts_of line ! 2) = Inr w"
    with a p show "parse_and_execute_line rt line s =
             Continue ((if rt then (\<lambda>t. t) else print (msg_defined (parts_of line ! 1) w))
               ((color_warned line (record_history rt line s))
                  \<lparr>variables := (variables s)(parts_of line ! 1 \<mapsto> w)\<rparr>))"
      by (auto split: sum.splits)
  }
  {
    assume "spec_concatenation True s (parts_of line ! 2) = Inl kind"
    with a p show "\<exists>msg. parse_and_execute_line rt line s =
              Continue (print msg (color_warned line (record_history rt line s)))"
      by (auto split: sum.splits)
  }
next
  assume a: "command_of line = Some ''show'' \<and> 2 \<le> length (parts_of line) \<and>
      lower (parts_of line ! 1) \<noteq> ''input'' \<and> lower (parts_of line ! 1) \<noteq> ''((input))'' \<and>
      (\<forall>p \<in> set (spec_segments (show_argument line)). \<not> irregular p)"
  then have r: "\<forall>p \<in> set (spec_segments (show_argument line)). \<not> irregular p"
    by simp
  note p = parse_show [of line rt s] spec_concatenation_show [OF r, of s]
  {
    assume "spec_concatenation False s (show_argument line) = Inr w"
    with a p show "parse_and_execute_line rt line s =
             Continue (print (color_code_of line @ w @ ANSI_RESET)
                         (color_warned line (record_history rt line s)))"
      by (auto split: sum.splits)
  }
  {
    assume "spec_concatenation False s (show_argument line) = Inl kind"
    with a p show "\<exists>msg. parse_and_execute_line rt line s =
              Continue (print msg (color_warned line (record_history rt line s)))"
      by (auto split: sum.splits)
  }
next
  assume "variables s ''first'' = Some ''Jane'' \<and> variables s ''last'' = Some ''Doe''"
  then show "parse_and_execute_line rt ''define full (first) : \" \" : (last)'' s =
          Continue ((if rt then (\<lambda>t. t) else print (msg_defined ''full'' ''Jane Doe''))
            ((record_history rt ''define full (first) : \" \" : (last)'' s)
               \<lparr>variables := (variables s)(''full'' \<mapsto> ''Jane Doe'')\<rparr>))"
    by (simp add: define_full_name)
qed

text \<open>
  Claim C2 says that for every value argument of \<^verbatim>\<open>define\<close> the evaluation splits the
  argument on colons, resolves the segments and joins them. The code does not evaluate the
  value argument when the fields of the line are separated by more than one blank: line 114
  cuts the line at \<^verbatim>\<open>len("define") + len(var_name) + 1\<close>, which is the start of the third
  field of line 97 only when one blank separates the fields. With two blanks after the
  command word, \<^verbatim>\<open>define  x "a"\<close> has the third field \<^verbatim>\<open>"a"\<close>, which the evaluator of the
  specification resolves to \<^verbatim>\<open>a\<close>, but the code evaluates \<^verbatim>\<open>x "a"\<close>, prints the diagnostic of
  an invalid element and stores nothing; \<^verbatim>\<open>define  n "a" : "b"\<close> stores nothing either; and
  \<^verbatim>\<open>define  "" "a"\<close> stores, under the name \<^verbatim>\<open>""\<close>, a blank followed by \<^verbatim>\<open>"a\<close> instead of
  \<^verbatim>\<open>a\<close>. With one blank, \<^verbatim>\<open>define x "a"\<close> stores \<^verbatim>\<open>a\<close>, and the example of the claim,
  \<^verbatim>\<open>define full (first) : " " : (last)\<close> after \<^verbatim>\<open>first\<close> and \<^verbatim>\<open>last\<close> were defined as
  \<^verbatim>\<open>Jane\<close> and \<^verbatim>\<open>Doe\<close>, stores \<^verbatim>\<open>Jane Doe\<close>; with two blanks after the command word the
  same line stores nothing.
\<close>

theorem define_evaluates_misplaced_text:
  "parts_of ''define  x \"a\"'' = [''define'', ''x'', ''\"a\"'']
   \<and> spec_concatenation True (init []) (parts_of ''define  x \"a\"'' ! 2) = Inr ''a''
   \<and> define_argument ''define  x \"a\"'' = ''x \"a\"''
   \<and> variables (final_state (parse_and_execute_line False ''define  x \"a\"'' (init []))) ''x'' = None
   \<and> stdout (final_state (parse_and_execute_line False ''define  x \"a\"'' (init []))) =
       [Print (msg_define_invalid ''x \"a\"'')]
   \<and> parts_of ''define  n \"a\" : \"b\"'' = [''define'', ''n'', ''\"a\" : \"b\"'']
   \<and> spec_concatenation True (init []) (parts_of ''define  n \"a\" : \"b\"'' ! 2) = Inr ''ab''
   \<and> variables (final_state (parse_and_execute_line False ''define  n \"a\" : \"b\"'' (init []))) ''n'' = None
   \<and> parts_of ''define  \"\" \"a\"'' = [''define'', ''\"\"'', ''\"a\"'']
   \<and> spec_concatenation True (init []) (parts_of ''define  \"\" \"a\"'' ! 2) = Inr ''a''
   \<and> variables (final_state (parse_and_execute_line False ''define  \"\" \"a\"'' (init []))) ''\"\"'' =
       Some '' \"a''
   \<and> variables (final_state (parse_and_execute_line False ''define x \"a\"'' (init []))) ''x'' =
       Some ''a''
   \<and> variables (final_state (parse_and_execute_line False
         ''define full (first) : \" \" : (last)'' jane_doe)) ''full'' = Some ''Jane Doe''
   \<and> variables (final_state (parse_and_execute_line False
         ''define  full (first) : \" \" : (last)'' jane_doe)) ''full'' = None"
  by code_simp


end
